theory Spec2Isabelle
  imports Main "HOL-Library.Char_ord" "HOL-Library.List_Lexorder" "HOL-Library.AList"
begin

text \<open>
  A shallow embedding of the two visual-regression scripts of the repository:
  \<^verbatim>\<open>src/pythonregression.py\<close> (the baseline; its definitions carry the source's names) and
  \<^verbatim>\<open>src/unnamed/part_000\<close> (the earlier variant; where it differs from the baseline its
  definitions carry the suffix \<open>_alt\<close>). Functions that are the same text in both
  scripts are embedded once.
\<close>

section \<open>Strings\<close>

text \<open>
  Python strings are modelled as \<^typ>\<open>string\<close>, read as the UTF-8 bytes of the text.
  The characters the two scripts test for or insert (\<open>/\<close>, \<open>_\<close>, the line feed) are
  ASCII, so they never occur inside a multi-byte sequence, and the byte-wise lexicographic
  order of UTF-8 (\<open>HOL-Library.List_Lexorder\<close> over \<open>HOL-Library.Char_ord\<close>) is the code
  point order that Python's \<open>sorted\<close> uses on \<open>str\<close>.
\<close>

definition py_strip :: "(char \<Rightarrow> bool) \<Rightarrow> string \<Rightarrow> string" where
  \<comment> \<open>\<open>s.strip(chars)\<close>: drop the leading and the trailing characters that are in \<open>chars\<close>.\<close>
  "py_strip P s = rev (dropWhile P (rev (dropWhile P s)))"

definition py_replace :: "char \<Rightarrow> char \<Rightarrow> string \<Rightarrow> string" where
  \<comment> \<open>\<open>s.replace(a, b)\<close> for one-character \<open>a\<close> and \<open>b\<close>.\<close>
  "py_replace a b s = map (\<lambda>c. if c = a then b else c) s"

definition py_whitespace :: "string list" where
  \<comment> \<open>The UTF-8 encodings of the characters that \<open>str.strip()\<close> without argument removes,
      those for which \<open>str.isspace\<close> holds: U+0009 to U+000D, U+001C to U+001F, U+0020,
      U+0085, U+00A0, U+1680, U+2000 to U+200A, U+2028, U+2029, U+202F, U+205F, U+3000.\<close>
  "py_whitespace =
     [[CHR 0x09], [CHR 0x0A], [CHR 0x0B], [CHR 0x0C], [CHR 0x0D],
      [CHR 0x1C], [CHR 0x1D], [CHR 0x1E], [CHR 0x1F], [CHR 0x20],
      [CHR 0xC2, CHR 0x85], [CHR 0xC2, CHR 0xA0],
      [CHR 0xE1, CHR 0x9A, CHR 0x80],
      [CHR 0xE2, CHR 0x80, CHR 0x80], [CHR 0xE2, CHR 0x80, CHR 0x81],
      [CHR 0xE2, CHR 0x80, CHR 0x82], [CHR 0xE2, CHR 0x80, CHR 0x83],
      [CHR 0xE2, CHR 0x80, CHR 0x84], [CHR 0xE2, CHR 0x80, CHR 0x85],
      [CHR 0xE2, CHR 0x80, CHR 0x86], [CHR 0xE2, CHR 0x80, CHR 0x87],
      [CHR 0xE2, CHR 0x80, CHR 0x88], [CHR 0xE2, CHR 0x80, CHR 0x89],
      [CHR 0xE2, CHR 0x80, CHR 0x8A],
      [CHR 0xE2, CHR 0x80, CHR 0xA8], [CHR 0xE2, CHR 0x80, CHR 0xA9],
      [CHR 0xE2, CHR 0x80, CHR 0xAF],
      [CHR 0xE2, CHR 0x81, CHR 0x9F],
      [CHR 0xE3, CHR 0x80, CHR 0x80]]"

definition leading :: "string list \<Rightarrow> string \<Rightarrow> string option" where
  \<comment> \<open>The first of the byte sequences \<open>ws\<close> that the string begins with.\<close>
  "leading ws s = find (\<lambda>w. w \<noteq> [] \<and> take (length w) s = w) ws"

function lstrip_any :: "string list \<Rightarrow> string \<Rightarrow> string" where
  \<comment> \<open>Drop leading characters, given by their encodings \<open>ws\<close>, until none is left.\<close>
  "lstrip_any ws s =
     (case leading ws s of
        None \<Rightarrow> s
      | Some w \<Rightarrow> lstrip_any ws (drop (length w) s))"
  by pat_completeness auto
termination
proof (relation "measure (\<lambda>(ws, s). length s)")
  show "wf (measure (\<lambda>(ws, s). length s))" by simp
next
  fix ws :: "string list" and s w :: string
  assume "leading ws s = Some w"
  then have w: "w \<noteq> []" and t: "take (length w) s = w"
    by (auto simp: leading_def find_Some_iff)
  from t have "length (take (length w) s) = length w" by simp
  then have "length w \<le> length s" by simp
  with w show "((ws, drop (length w) s), (ws, s)) \<in> measure (\<lambda>(ws, s). length s)"
    by (cases w) auto
qed

definition py_strip_space :: "string \<Rightarrow> string" where
  \<comment> \<open>\<open>s.strip()\<close>: drop the leading and the trailing white space. In UTF-8 no encoding
      of a character is the end of the encoding of another, so the trailing characters
      are the leading ones of the reversed string, with reversed encodings.\<close>
  "py_strip_space s =
     rev (lstrip_any (map rev py_whitespace) (rev (lstrip_any py_whitespace s)))"

definition newline :: string where
  "newline = [CHR 0x0A]"

fun join_lines :: "string list \<Rightarrow> string" where
  \<comment> \<open>\<open>'\n'.join(html)\<close>\<close>
  "join_lines [] = []"
| "join_lines [l] = l"
| "join_lines (l # ls) = l @ newline @ join_lines ls"

definition path_join :: "string \<Rightarrow> string \<Rightarrow> string" where
  \<comment> \<open>\<open>os.path.join(a, b)\<close> on a POSIX system.\<close>
  "path_join a b =
     (if take 1 b = ''/'' then b
      else if a = [] \<or> drop (length a - 1) a = ''/'' then a @ b
      else a @ ''/'' @ b)"

section \<open>Configuration\<close>

definition SOURCE_SITE :: string where
  "SOURCE_SITE = ''https://bumperdocbrooklyn.com''"

definition TARGET_SITE :: string where
  "TARGET_SITE = ''https://staging2.bumperdocbrooklyn.com''"

definition SOURCE_SITEMAP_URL :: string where
  "SOURCE_SITEMAP_URL = SOURCE_SITE @ ''/page-sitemap.xml''"

definition TARGET_SITEMAP_URL :: string where
  "TARGET_SITEMAP_URL = TARGET_SITE @ ''/page-sitemap.xml''"

definition REPORT_DIR :: string where
  "REPORT_DIR = ''regression_report_bumperdoc''"

definition REPORT_DIR_alt :: string where
  "REPORT_DIR_alt = ''regression_reportforbumperdoc2''"

definition RETRY_COUNT :: nat where
  "RETRY_COUNT = 2"

section \<open>The outside world\<close>

text \<open>
  The scripts talk to collaborators that are not part of the repository: the HTTP client
  with the XML parser, \<open>urllib.parse\<close>, the file system and the browser driven through
  Selenium. What the scripts observe of them is made a parameter of the model.

  An HTTP request either raises (connection error, timeout) or returns a response with a
  status code and a body. Of the body the scripts only use the parse result. The parser
  (\<open>BeautifulSoup\<close> over \<open>lxml-xml\<close>) raises, or it yields a document, of which only the
  texts of the \<open><loc>\<close> elements, in document order, are read. It yields a document
  also for a body that is not well-formed XML, a truncated sitemap for example: it
  recovers what it can. The flag of \<open>Document\<close> records whether the body was well-formed;
  no script can see it.
\<close>

datatype soup = ParseFailure | Document bool "string list"

datatype http_result = RequestFailed | Response nat soup

type_synonym web = "string \<Rightarrow> http_result"

text \<open>
  \<open>urlparse(u)\<close> raises a \<open>ValueError\<close> for some URLs (unbalanced brackets in the
  network location, for one); for every other URL it has a path. The first is the
  parameter \<open>bad_url\<close> of the orchestrator, the second its parameter \<open>url_path\<close>.

  \<open>os.makedirs(page_dir, exist_ok=True)\<close> raises when the directory cannot be made, for
  example when a file of that name exists. The directories of a run are children of the
  report directory, one per slug, and nothing a run writes changes whether another of
  them can be made, so the file system is a predicate on directory names: those for
  which the call raises.
\<close>

type_synonym disk = "string \<Rightarrow> bool"

text \<open>
  One attempt to capture a page (the body of the \<open>try\<close> in \<open>take_fullpage_screenshot\<close>)
  runs to its \<open>return True\<close>, or one of its driver calls raises a
  \<open>WebDriverException\<close>, or something else raises (opening or writing the file,
  decoding the image data). The cookie-banner step has its own \<open>try\<close> that swallows
  every exception, so it contributes no outcome. The driver answers as a function of the
  URL, the output file and the number of the attempt: within one run no two captures
  share both the URL and the output file. The variant makes a single attempt, which the
  model numbers 1.

  Writing the log is taken to succeed, and every call to a collaborator is taken to come
  back: a request that never answers (the variant sets no timeout) is outside the model.
\<close>

datatype attempt = Captured | AutomationError | OtherError

type_synonym browser = "string \<Rightarrow> string \<Rightarrow> nat \<Rightarrow> attempt"

datatype exn =
  RequestException | HTTPError | ParserError | ValueError | OSError | OtherException

section \<open>Sitemap fetcher\<close>

definition raise_for_status :: "nat \<Rightarrow> exn + unit" where
  \<comment> \<open>\<open>requests.Response.raise_for_status\<close>: raises for a 4xx or a 5xx status only.\<close>
  "raise_for_status status_code =
     (if 400 \<le> status_code \<and> status_code < 600 then Inl HTTPError else Inr ())"

definition sitemap_body :: "web \<Rightarrow> string \<Rightarrow> exn + string list" where
  \<comment> \<open>The body of the \<open>try\<close> of \<open>get_sitemap_urls\<close> in the baseline.\<close>
  "sitemap_body w sitemap_url =
     (case w sitemap_url of
        RequestFailed \<Rightarrow> Inl RequestException
      | Response status_code content \<Rightarrow>
          (case raise_for_status status_code of
             Inl e \<Rightarrow> Inl e
           | Inr _ \<Rightarrow>
               (case content of
                  ParseFailure \<Rightarrow> Inl ParserError
                | Document well_formed locs \<Rightarrow>
                    (let urls = map py_strip_space locs
                     in if urls = [] then Inl ValueError else Inr urls))))"

definition get_sitemap_urls :: "web \<Rightarrow> string \<Rightarrow> string list" where
  \<comment> \<open>\<open>except Exception\<close>: log a warning and return the empty list.\<close>
  "get_sitemap_urls w sitemap_url =
     (case sitemap_body w sitemap_url of Inl e \<Rightarrow> [] | Inr urls \<Rightarrow> urls)"

definition sitemap_body_alt :: "web \<Rightarrow> string \<Rightarrow> exn + string list" where
  \<comment> \<open>The variant returns the list as it is, also when it is empty.\<close>
  "sitemap_body_alt w sitemap_url =
     (case w sitemap_url of
        RequestFailed \<Rightarrow> Inl RequestException
      | Response status_code content \<Rightarrow>
          (case raise_for_status status_code of
             Inl e \<Rightarrow> Inl e
           | Inr _ \<Rightarrow>
               (case content of
                  ParseFailure \<Rightarrow> Inl ParserError
                | Document well_formed locs \<Rightarrow> Inr (map py_strip_space locs))))"

definition get_sitemap_urls_alt :: "web \<Rightarrow> string \<Rightarrow> string list" where
  "get_sitemap_urls_alt w sitemap_url =
     (case sitemap_body_alt w sitemap_url of Inl e \<Rightarrow> [] | Inr urls \<Rightarrow> urls)"

section \<open>Slugs\<close>

definition get_path_slug :: "string \<Rightarrow> string" where
  \<comment> \<open>\<open>path.strip('/').replace('/', '_') or 'home'\<close>; the same line in both scripts.\<close>
  "get_path_slug path =
     (let s = py_replace CHR ''/'' CHR ''_'' (py_strip (\<lambda>c. c = CHR ''/'') path)
      in if s = [] then ''home'' else s)"

section \<open>Page capture\<close>

fun capture_attempts :: "browser \<Rightarrow> string \<Rightarrow> string \<Rightarrow> nat list \<Rightarrow> exn + bool" where
  \<comment> \<open>The \<open>for attempt in ...\<close> loop of the baseline: success returns at once, a
      \<open>WebDriverException\<close> is caught and the loop goes on, any other exception leaves
      the function; after the last attempt the function returns \<open>False\<close>.\<close>
  "capture_attempts driver url output_path [] = Inr False"
| "capture_attempts driver url output_path (attempt # rest) =
     (case driver url output_path attempt of
        Captured \<Rightarrow> Inr True
      | AutomationError \<Rightarrow> capture_attempts driver url output_path rest
      | OtherError \<Rightarrow> Inl OtherException)"

definition take_fullpage_screenshot :: "browser \<Rightarrow> string \<Rightarrow> string \<Rightarrow> exn + bool" where
  \<comment> \<open>\<open>range(1, RETRY_COUNT + 1)\<close>\<close>
  "take_fullpage_screenshot driver url output_path =
     capture_attempts driver url output_path [1 ..< RETRY_COUNT + 1]"

definition take_fullpage_screenshot_alt :: "browser \<Rightarrow> string \<Rightarrow> string \<Rightarrow> bool" where
  \<comment> \<open>The variant makes one attempt inside \<open>try ... except Exception: return False\<close>.\<close>
  "take_fullpage_screenshot_alt driver url output_path =
     (case driver url output_path 1 of
        Captured \<Rightarrow> True
      | AutomationError \<Rightarrow> False
      | OtherError \<Rightarrow> False)"

section \<open>Path reconciliation\<close>

text \<open>
  A Python \<open>dict\<close> is an association list with distinct keys in insertion order;
  \<^const>\<open>AList.update\<close> overwrites the value of a key that is present and appends a
  new key, as assignment to a \<open>dict\<close> does.
\<close>

definition url_dict :: "(string \<Rightarrow> string) \<Rightarrow> string list \<Rightarrow> (string \<times> string) list" where
  \<comment> \<open>\<open>{urlparse(u).path: u for u in urls}\<close>\<close>
  "url_dict url_path urls = foldl (\<lambda>d u. AList.update (url_path u) u d) [] urls"

definition path_dict ::
  "(string \<Rightarrow> bool) \<Rightarrow> (string \<Rightarrow> string) \<Rightarrow> string list \<Rightarrow> exn + (string \<times> string) list" where
  \<comment> \<open>The same comprehension inside \<open>run_test\<close>, where nothing catches the
      \<open>ValueError\<close> of \<open>urlparse\<close>: one URL that does not parse and there is no mapping.\<close>
  "path_dict bad_url url_path urls =
     (if list_ex bad_url urls then Inl ValueError else Inr (url_dict url_path urls))"

definition all_paths :: "(string \<times> string) list \<Rightarrow> (string \<times> string) list \<Rightarrow> string list" where
  \<comment> \<open>\<open>sorted(set(source_map.keys()).union(set(target_map.keys())))\<close>\<close>
  "all_paths source_map target_map = sort (remdups (map fst source_map @ map fst target_map))"

definition source_urls :: "web \<Rightarrow> string list" where
  "source_urls w = get_sitemap_urls w SOURCE_SITEMAP_URL"

definition target_urls :: "web \<Rightarrow> string list" where
  \<comment> \<open>With the baseline's fallback to the home page of the target site.\<close>
  "target_urls w =
     (let urls = get_sitemap_urls w TARGET_SITEMAP_URL
      in if urls = [] then [TARGET_SITE @ ''/''] else urls)"

definition source_urls_alt :: "web \<Rightarrow> string list" where
  "source_urls_alt w = get_sitemap_urls_alt w SOURCE_SITEMAP_URL"

definition target_urls_alt :: "web \<Rightarrow> string list" where
  "target_urls_alt w = get_sitemap_urls_alt w TARGET_SITEMAP_URL"

section \<open>Report entries and the orchestrator\<close>

record report_entry =
  slug :: string
  path :: string
  source :: "string option"
  target :: "string option"
  source_failed :: bool
  target_failed :: bool

definition make_entry :: "string \<Rightarrow> bool \<Rightarrow> bool \<Rightarrow> report_entry" where
  \<comment> \<open>The dictionary appended to \<open>report_entries\<close>; the arguments are the path and the
      truth values of \<open>source_success\<close> and \<open>target_success\<close>.\<close>
  "make_entry p source_success target_success =
     \<lparr> slug = get_path_slug p,
       path = p,
       source = (if source_success then Some (get_path_slug p @ ''/source.png'') else None),
       target = (if target_success then Some (get_path_slug p @ ''/target.png'') else None),
       source_failed = (\<not> source_success),
       target_failed = (\<not> target_success) \<rparr>"

definition page_dir :: "string \<Rightarrow> string \<Rightarrow> string" where
  "page_dir report_dir p = path_join report_dir (get_path_slug p)"

definition source_img :: "string \<Rightarrow> string \<Rightarrow> string" where
  "source_img report_dir p = path_join (page_dir report_dir p) ''source.png''"

definition target_img :: "string \<Rightarrow> string \<Rightarrow> string" where
  "target_img report_dir p = path_join (page_dir report_dir p) ''target.png''"

definition capture_side :: "browser \<Rightarrow> string option \<Rightarrow> string \<Rightarrow> exn + bool" where
  \<comment> \<open>\<open>url and take_fullpage_screenshot(url, img)\<close>: \<open>None\<close> and the empty string are
      false, and then no capture is attempted. Only the truth value of the result is used.\<close>
  "capture_side driver url img =
     (case url of
        None \<Rightarrow> Inr False
      | Some u \<Rightarrow> if u = [] then Inr False else take_fullpage_screenshot driver u img)"

definition compare_page ::
  "disk \<Rightarrow> browser \<Rightarrow> (string \<times> string) list \<Rightarrow> (string \<times> string) list \<Rightarrow> string
     \<Rightarrow> exn + report_entry" where
  \<comment> \<open>The body of \<open>for path in all_paths\<close> in the baseline. Nothing in \<open>run_test\<close>
      catches what \<open>os.makedirs\<close> or a capture raises.\<close>
  "compare_page makedirs_raises driver source_map target_map p =
     (if makedirs_raises (page_dir REPORT_DIR p) then Inl OSError
      else
        let src_url = map_of source_map p;
            tgt_url = map_of target_map p
        in case capture_side driver src_url (source_img REPORT_DIR p) of
             Inl e \<Rightarrow> Inl e
           | Inr source_success \<Rightarrow>
               (case capture_side driver tgt_url (target_img REPORT_DIR p) of
                  Inl e \<Rightarrow> Inl e
                | Inr target_success \<Rightarrow> Inr (make_entry p source_success target_success)))"

definition capture_side_alt :: "browser \<Rightarrow> string option \<Rightarrow> string \<Rightarrow> bool" where
  \<comment> \<open>\<open>success = False\<close>, then \<open>if url: success = take_fullpage_screenshot(url, img)\<close>\<close>
  "capture_side_alt driver url img =
     (case url of
        None \<Rightarrow> False
      | Some u \<Rightarrow> if u = [] then False else take_fullpage_screenshot_alt driver u img)"

definition compare_page_alt ::
  "disk \<Rightarrow> browser \<Rightarrow> (string \<times> string) list \<Rightarrow> (string \<times> string) list \<Rightarrow> string
     \<Rightarrow> exn + report_entry" where
  \<comment> \<open>The body of the loop in the variant: a capture cannot raise, \<open>os.makedirs\<close> can.\<close>
  "compare_page_alt makedirs_raises driver source_map target_map p =
     (if makedirs_raises (page_dir REPORT_DIR_alt p) then Inl OSError
      else
        let src_url = map_of source_map p;
            tgt_url = map_of target_map p;
            source_success = capture_side_alt driver src_url (source_img REPORT_DIR_alt p);
            target_success = capture_side_alt driver tgt_url (target_img REPORT_DIR_alt p)
        in Inr (make_entry p source_success target_success))"

fun compare_pages :: "(string \<Rightarrow> exn + report_entry) \<Rightarrow> string list \<Rightarrow> exn + report_entry list" where
  \<comment> \<open>\<open>for path in all_paths\<close> around the loop body \<open>body\<close>: the entries are appended in
      the order of the paths, and the first exception ends the loop and \<open>run_test\<close>.\<close>
  "compare_pages body [] = Inr []"
| "compare_pages body (p # ps) =
     (case body p of
        Inl e \<Rightarrow> Inl e
      | Inr entry \<Rightarrow>
          (case compare_pages body ps of
             Inl e \<Rightarrow> Inl e
           | Inr entries \<Rightarrow> Inr (entry # entries)))"

section \<open>Report generation\<close>

definition cross_mark :: string where
  \<comment> \<open>U+274C in UTF-8\<close>
  "cross_mark = [CHR 0xE2, CHR 0x9D, CHR 0x8C]"

definition style_line :: string where
  "style_line =
     ''<style>body{font-family:sans-serif}img{max-width:45%;border:1px solid #ccc;margin:10px}'' @
     ''div.page{margin-bottom:40px;}label{margin-right:20px} .missing{color:red;}</style>''"

definition html_head :: "string list" where
  "html_head =
     [''<html><head><title>Visual Regression Report</title>'',
      style_line,
      ''</head><body>'',
      ''<h1>Visual Regression Report</h1>'']"

definition html_head_alt :: "string list" where
  "html_head_alt =
     [''<html><head><title>Regression Report</title>'',
      style_line,
      ''</head><body>'',
      ''<h1>Visual Regression Report</h1>'']"

definition source_missing :: string where
  "source_missing = ''<p class='missing'>'' @ cross_mark @ '' Source page not available</p>''"

definition target_missing :: string where
  "target_missing = ''<p class='missing'>'' @ cross_mark @ '' Target page not available</p>''"

definition source_html :: "report_entry \<Rightarrow> string" where
  \<comment> \<open>\<open>if entry['source']:\<close> is false for \<open>None\<close> and for the empty string.\<close>
  "source_html entry =
     (case source entry of
        None \<Rightarrow> source_missing
      | Some img \<Rightarrow>
          if img = [] then source_missing
          else ''<img src='' @ [CHR 0x27] @ img @ [CHR 0x27] @ '' alt='Source'>'')"

definition target_html :: "report_entry \<Rightarrow> string" where
  "target_html entry =
     (case target entry of
        None \<Rightarrow> target_missing
      | Some img \<Rightarrow>
          if img = [] then target_missing
          else ''<img src='' @ [CHR 0x27] @ img @ [CHR 0x27] @ '' alt='Target'>'')"

definition checkbox_line :: string where
  "checkbox_line =
     ''<div><label><input type='checkbox'/> Pass</label><label><input type='checkbox'/> Fail</label></div>''"

definition entry_html :: "report_entry \<Rightarrow> string list" where
  \<comment> \<open>The lines that one round of \<open>for entry in entries\<close> appends.\<close>
  "entry_html entry =
     [''<div class='page'><h2>'' @ path entry @ ''</h2>'',
      checkbox_line,
      source_html entry,
      target_html entry,
      ''</div>'']"

definition html_lines :: "string list \<Rightarrow> report_entry list \<Rightarrow> string list" where
  \<comment> \<open>The list \<open>html\<close> when the loop is over and the closing line is appended.\<close>
  "html_lines head entries = head @ concat (map entry_html entries) @ [''</body></html>'']"

definition generate_html_report :: "report_entry list \<Rightarrow> string" where
  \<comment> \<open>The text handed to \<open>f.write\<close> for \<open>index.html\<close>. A failure to write the file is
      logged and swallowed; it changes nothing else.\<close>
  "generate_html_report entries = join_lines (html_lines html_head entries)"

definition generate_html_report_alt :: "report_entry list \<Rightarrow> string" where
  "generate_html_report_alt entries = join_lines (html_lines html_head_alt entries)"

record run_result =
  report_entries :: "report_entry list"
  index_html :: string

definition run_test ::
  "(string \<Rightarrow> bool) \<Rightarrow> (string \<Rightarrow> string) \<Rightarrow> web \<Rightarrow> disk \<Rightarrow> browser \<Rightarrow> exn + run_result" where
  \<comment> \<open>The baseline's \<open>run_test\<close>. An exception of \<open>urlparse\<close>, of \<open>os.makedirs\<close> or of a
      capture leaves \<open>run_test\<close> before any report is written.\<close>
  "run_test bad_url url_path w makedirs_raises driver =
     (case path_dict bad_url url_path (source_urls w) of
        Inl e \<Rightarrow> Inl e
      | Inr source_map \<Rightarrow>
          (case path_dict bad_url url_path (target_urls w) of
             Inl e \<Rightarrow> Inl e
           | Inr target_map \<Rightarrow>
               (case compare_pages (compare_page makedirs_raises driver source_map target_map)
                       (all_paths source_map target_map) of
                  Inl e \<Rightarrow> Inl e
                | Inr entries \<Rightarrow>
                    Inr \<lparr> report_entries = entries,
                          index_html = generate_html_report entries \<rparr>)))"

definition run_test_alt ::
  "(string \<Rightarrow> bool) \<Rightarrow> (string \<Rightarrow> string) \<Rightarrow> web \<Rightarrow> disk \<Rightarrow> browser \<Rightarrow> exn + run_result" where
  "run_test_alt bad_url url_path w makedirs_raises driver =
     (case path_dict bad_url url_path (source_urls_alt w) of
        Inl e \<Rightarrow> Inl e
      | Inr source_map \<Rightarrow>
          (case path_dict bad_url url_path (target_urls_alt w) of
             Inl e \<Rightarrow> Inl e
           | Inr target_map \<Rightarrow>
               (case compare_pages (compare_page_alt makedirs_raises driver source_map target_map)
                       (all_paths source_map target_map) of
                  Inl e \<Rightarrow> Inl e
                | Inr entries \<Rightarrow>
                    Inr \<lparr> report_entries = entries,
                          index_html = generate_html_report_alt entries \<rparr>)))"

section \<open>The path of a URL\<close>

text \<open>
  The theorems below hold for every predicate \<open>bad_url\<close> and every function \<open>url_path\<close>.
  For concrete runs, \<open>urlparse_raises\<close> and \<open>urlparse_path\<close> follow \<open>urlsplit\<close> and
  \<open>urlparse\<close> of \<open>urllib.parse\<close> (Python 3.12): leading control characters and spaces are
  dropped, tabs and line breaks deleted; a scheme is split off at the first colon when
  what precedes it starts with a letter and holds scheme characters only; a network
  location follows \<open>//\<close> and ends before the first of \<open>/\<close>, \<open>?\<close> and \<open>#\<close>, and a
  bracket in it without its partner is a \<open>ValueError\<close>; the path ends before the
  fragment and the query, and, for the schemes that take parameters, before the first
  semicolon of its last segment. The further checks of the network location
  (\<open>_check_bracketed_netloc\<close>, \<open>_checknetloc\<close>) are not modelled.
\<close>

definition ascii_alpha :: "char \<Rightarrow> bool" where
  "ascii_alpha c =
     (let n = (of_char c :: nat) in (97 \<le> n \<and> n \<le> 122) \<or> (65 \<le> n \<and> n \<le> 90))"

definition scheme_char :: "char \<Rightarrow> bool" where
  "scheme_char c =
     (let n = (of_char c :: nat)
      in ascii_alpha c \<or> (48 \<le> n \<and> n \<le> 57) \<or> n = 43 \<or> n = 45 \<or> n = 46)"

definition ascii_lower :: "char \<Rightarrow> char" where
  "ascii_lower c =
     (let n = (of_char c :: nat) in if 65 \<le> n \<and> n \<le> 90 then char_of (n + 32) else c)"

definition url_cleaned :: "string \<Rightarrow> string" where
  \<comment> \<open>\<open>url.lstrip(_WHATWG_C0_CONTROL_OR_SPACE)\<close>, then tab, line feed and carriage return
      are removed wherever they are.\<close>
  "url_cleaned url =
     filter (\<lambda>c. c \<noteq> CHR 0x09 \<and> c \<noteq> CHR 0x0A \<and> c \<noteq> CHR 0x0D)
       (dropWhile (\<lambda>c. (of_char c :: nat) \<le> 32) url)"

definition split_scheme :: "string \<Rightarrow> string \<times> string" where
  "split_scheme url =
     (let s = takeWhile (\<lambda>c. c \<noteq> CHR '':'') url
      in if length s < length url \<and> s \<noteq> [] \<and> list_all ascii_alpha (take 1 s)
            \<and> list_all scheme_char s
         then (map ascii_lower s, drop (length s + 1) url) else ([], url))"

definition split_netloc :: "string \<Rightarrow> string \<times> string" where
  "split_netloc url =
     (if take 2 url = ''//''
      then (takeWhile (\<lambda>c. c \<noteq> CHR ''/'' \<and> c \<noteq> CHR ''?'' \<and> c \<noteq> CHR ''#'') (drop 2 url),
            dropWhile (\<lambda>c. c \<noteq> CHR ''/'' \<and> c \<noteq> CHR ''?'' \<and> c \<noteq> CHR ''#'') (drop 2 url))
      else ([], url))"

definition uses_params :: "string list" where
  "uses_params =
     [[], ''ftp'', ''hdl'', ''prospero'', ''http'', ''imap'', ''https'', ''shttp'', ''rtsp'',
      ''rtsps'', ''rtspu'', ''sip'', ''sips'', ''mms'', ''sftp'', ''tel'']"

definition drop_params :: "string \<Rightarrow> string" where
  \<comment> \<open>\<open>_splitparams\<close>, for a path that holds a semicolon.\<close>
  "drop_params p =
     (let seg = rev (takeWhile (\<lambda>c. c \<noteq> CHR ''/'') (rev p))
      in take (length p - length seg) p @ takeWhile (\<lambda>c. c \<noteq> CHR '';'') seg)"

definition urlparse_raises :: "string \<Rightarrow> bool" where
  "urlparse_raises url =
     (let netloc = fst (split_netloc (snd (split_scheme (url_cleaned url))))
      in (CHR ''['' \<in> set netloc \<and> CHR '']'' \<notin> set netloc)
         \<or> (CHR '']'' \<in> set netloc \<and> CHR ''['' \<notin> set netloc))"

definition urlparse_path :: "string \<Rightarrow> string" where
  "urlparse_path url =
     (let scheme = fst (split_scheme (url_cleaned url));
          rest = snd (split_netloc (snd (split_scheme (url_cleaned url))));
          p = takeWhile (\<lambda>c. c \<noteq> CHR ''?'') (takeWhile (\<lambda>c. c \<noteq> CHR ''#'') rest)
      in if scheme \<in> set uses_params \<and> CHR '';'' \<in> set p then drop_params p else p)"

section \<open>Concrete runs\<close>

definition example_web :: web where
  \<comment> \<open>The source sitemap lists \<open>/\<close> and \<open>/about\<close>, the target sitemap \<open>/about\<close> and
      \<open>/contact\<close>.\<close>
  "example_web u =
     (if u = SOURCE_SITEMAP_URL then
        Response 200 (Document True [''https://bumperdocbrooklyn.com/'',
                                     ''https://bumperdocbrooklyn.com/about''])
      else if u = TARGET_SITEMAP_URL then
        Response 200 (Document True [''https://staging2.bumperdocbrooklyn.com/about'',
                                     ''https://staging2.bumperdocbrooklyn.com/contact''])
      else RequestFailed)"

definition example_driver :: browser where
  \<comment> \<open>Every attempt on the source's \<open>/about\<close> page and on the target's \<open>/contact\<close> page
      meets a \<open>WebDriverException\<close>; every other capture succeeds at once.\<close>
  "example_driver url output_path attempt =
     (if url = ''https://bumperdocbrooklyn.com/about''
         \<or> url = ''https://staging2.bumperdocbrooklyn.com/contact''
      then AutomationError else Captured)"

definition log_file_disk :: disk where
  \<comment> \<open>The report directories as the scripts leave them at start-up: each holds the log
      file \<open>logs.txt\<close>, so a directory of that name cannot be made; every other can.\<close>
  "log_file_disk dir =
     (dir = ''regression_report_bumperdoc/logs.txt''
      \<or> dir = ''regression_reportforbumperdoc2/logs.txt'')"

definition example_entries :: "report_entry list" where
  \<comment> \<open>What both scripts report for \<open>example_web\<close> and \<open>example_driver\<close>.\<close>
  "example_entries =
     [\<lparr> slug = ''home'', path = ''/'', source = Some ''home/source.png'', target = None,
         source_failed = False, target_failed = True \<rparr>,
      \<lparr> slug = ''about'', path = ''/about'', source = None, target = Some ''about/target.png'',
         source_failed = True, target_failed = False \<rparr>,
      \<lparr> slug = ''contact'', path = ''/contact'', source = None, target = None,
         source_failed = True, target_failed = True \<rparr>]"

definition target_down_web :: web where
  \<comment> \<open>The source sitemap lists \<open>/about\<close>; the target sitemap cannot be fetched.\<close>
  "target_down_web u =
     (if u = SOURCE_SITEMAP_URL
      then Response 200 (Document True [''https://bumperdocbrooklyn.com/about''])
      else RequestFailed)"

definition target_down_entries_alt :: "report_entry list" where
  \<comment> \<open>What the variant reports for \<open>target_down_web\<close> and \<open>example_driver\<close>.\<close>
  "target_down_entries_alt =
     [\<lparr> slug = ''about'', path = ''/about'', source = None, target = None,
         source_failed = True, target_failed = True \<rparr>]"

definition logs_web :: web where
  \<comment> \<open>The source sitemap lists \<open>/about\<close> and \<open>/logs.txt\<close>; the target sitemap cannot be
      fetched.\<close>
  "logs_web u =
     (if u = SOURCE_SITEMAP_URL
      then Response 200 (Document True [''https://bumperdocbrooklyn.com/about'',
                                        ''https://bumperdocbrooklyn.com/logs.txt''])
      else RequestFailed)"

definition padded_about :: string where
  \<comment> \<open>The URL of the source's \<open>/about\<close> page wrapped in white space: a no-break space
      (U+00A0) and a space before it, an ideographic space (U+3000) and a line feed after
      it.\<close>
  "padded_about =
     [CHR 0xC2, CHR 0xA0] @ '' https://bumperdocbrooklyn.com/about''
       @ [CHR 0xE3, CHR 0x80, CHR 0x80, CHR 0x0A]"

definition padded_web :: web where
  \<comment> \<open>Every request is answered with a sitemap of two entries, the first padded.\<close>
  "padded_web u =
     Response 200 (Document True [padded_about, ''https://bumperdocbrooklyn.com/''])"

definition truncated_web :: web where
  \<comment> \<open>Every request is answered with status 200 and a sitemap cut off after its first
      \<open><loc>\<close>: not well-formed, and the parser recovers the entry.\<close>
  "truncated_web u = Response 200 (Document False [''https://bumperdocbrooklyn.com/''])"

definition not_found_web :: web where
  \<comment> \<open>Every request is answered with status 404 and a body that holds one \<open><loc>\<close>.\<close>
  "not_found_web u = Response 404 (Document True [''https://bumperdocbrooklyn.com/''])"

definition garbled_web :: web where
  \<comment> \<open>Every request is answered with status 200 and a body on which the parser raises.\<close>
  "garbled_web u = Response 200 ParseFailure"

definition empty_sitemap_web :: web where
  \<comment> \<open>Every request is answered with status 200 and a document without \<open><loc>\<close>.\<close>
  "empty_sitemap_web u = Response 200 (Document True [])"

definition offline_web :: web where
  \<comment> \<open>No sitemap can be fetched.\<close>
  "offline_web u = RequestFailed"

definition multiple_choices_web :: web where
  \<comment> \<open>Every request is answered with status 300 and a sitemap of one entry.\<close>
  "multiple_choices_web u = Response 300 (Document True [''https://bumperdocbrooklyn.com/''])"

definition read_only_disk_driver :: browser where
  \<comment> \<open>The browser works, but the screenshot file cannot be written.\<close>
  "read_only_disk_driver url output_path attempt = OtherError"

section \<open>Evaluating the concrete runs\<close>

lemma strip_plain:
  "py_strip_space ''https://bumperdocbrooklyn.com/'' = ''https://bumperdocbrooklyn.com/''"
  "py_strip_space ''https://bumperdocbrooklyn.com/about'' = ''https://bumperdocbrooklyn.com/about''"
  "py_strip_space ''https://bumperdocbrooklyn.com/logs.txt'' = ''https://bumperdocbrooklyn.com/logs.txt''"
  "py_strip_space ''https://staging2.bumperdocbrooklyn.com/about''
     = ''https://staging2.bumperdocbrooklyn.com/about''"
  "py_strip_space ''https://staging2.bumperdocbrooklyn.com/contact''
     = ''https://staging2.bumperdocbrooklyn.com/contact''"
  by (simp_all add: py_strip_space_def py_whitespace_def leading_def)

lemma strip_padded: "py_strip_space padded_about = ''https://bumperdocbrooklyn.com/about''"
  by (simp add: padded_about_def py_strip_space_def py_whitespace_def leading_def)

lemmas urlparse_defs =
  urlparse_path_def urlparse_raises_def url_cleaned_def split_scheme_def split_netloc_def
  uses_params_def drop_params_def ascii_lower_def scheme_char_def ascii_alpha_def

lemma example_url_paths:
  "urlparse_path ''https://bumperdocbrooklyn.com/'' = ''/''"
  "urlparse_path ''https://bumperdocbrooklyn.com/about'' = ''/about''"
  "urlparse_path ''https://bumperdocbrooklyn.com/logs.txt'' = ''/logs.txt''"
  "urlparse_path ''https://staging2.bumperdocbrooklyn.com/'' = ''/''"
  "urlparse_path ''https://staging2.bumperdocbrooklyn.com/about'' = ''/about''"
  "urlparse_path ''https://staging2.bumperdocbrooklyn.com/contact'' = ''/contact''"
  "urlparse_path ''https://bumperdocbrooklyn.com/about?v=1'' = ''/about''"
  "urlparse_path ''https://bumperdocbrooklyn.com/about?v=2'' = ''/about''"
  by (simp_all add: urlparse_defs)

lemma example_urls_parse:
  "\<not> urlparse_raises ''https://bumperdocbrooklyn.com/''"
  "\<not> urlparse_raises ''https://bumperdocbrooklyn.com/about''"
  "\<not> urlparse_raises ''https://bumperdocbrooklyn.com/logs.txt''"
  "\<not> urlparse_raises ''https://staging2.bumperdocbrooklyn.com/''"
  "\<not> urlparse_raises ''https://staging2.bumperdocbrooklyn.com/about''"
  "\<not> urlparse_raises ''https://staging2.bumperdocbrooklyn.com/contact''"
  by (simp_all add: urlparse_defs)

lemmas sitemap_defs =
  source_urls_def target_urls_def source_urls_alt_def target_urls_alt_def
  get_sitemap_urls_def get_sitemap_urls_alt_def sitemap_body_def sitemap_body_alt_def
  raise_for_status_def SOURCE_SITEMAP_URL_def TARGET_SITEMAP_URL_def
  SOURCE_SITE_def TARGET_SITE_def strip_plain

lemma example_urls:
  "source_urls example_web
     = [''https://bumperdocbrooklyn.com/'', ''https://bumperdocbrooklyn.com/about'']"
  "target_urls example_web
     = [''https://staging2.bumperdocbrooklyn.com/about'',
        ''https://staging2.bumperdocbrooklyn.com/contact'']"
  "source_urls_alt example_web = source_urls example_web"
  "target_urls_alt example_web = target_urls example_web"
  by (simp_all add: sitemap_defs example_web_def)

lemma target_down_urls:
  "source_urls target_down_web = [''https://bumperdocbrooklyn.com/about'']"
  "target_urls target_down_web = [''https://staging2.bumperdocbrooklyn.com/'']"
  "source_urls_alt target_down_web = [''https://bumperdocbrooklyn.com/about'']"
  "target_urls_alt target_down_web = []"
  by (simp_all add: sitemap_defs target_down_web_def)

lemma logs_urls:
  "source_urls logs_web
     = [''https://bumperdocbrooklyn.com/about'', ''https://bumperdocbrooklyn.com/logs.txt'']"
  "target_urls logs_web = [''https://staging2.bumperdocbrooklyn.com/'']"
  "source_urls_alt logs_web = source_urls logs_web"
  "target_urls_alt logs_web = []"
  by (simp_all add: sitemap_defs logs_web_def)

lemmas example_defs =
  example_urls target_down_urls logs_urls example_url_paths example_urls_parse
  url_dict_def path_dict_def all_paths_def

lemmas run_defs =
  compare_page_def compare_page_alt_def capture_side_def capture_side_alt_def
  take_fullpage_screenshot_alt_def make_entry_def
  get_path_slug_def py_strip_def py_replace_def page_dir_def path_join_def REPORT_DIR_def
  REPORT_DIR_alt_def log_file_disk_def Let_def

section \<open>Properties of the slug\<close>

lemma dropWhile_none: "\<forall>c \<in> set s. \<not> P c \<Longrightarrow> dropWhile P s = s"
  by (cases s) auto

lemma py_strip_no_occurrence: "\<forall>c \<in> set s. \<not> P c \<Longrightarrow> py_strip P s = s"
  by (simp add: py_strip_def dropWhile_none)

lemma py_replace_no_occurrence: "a \<notin> set s \<Longrightarrow> py_replace a b s = s"
  by (induction s) (auto simp: py_replace_def)

lemma py_replace_removes: "a \<noteq> b \<Longrightarrow> a \<notin> set (py_replace a b s)"
  by (auto simp: py_replace_def)

lemma py_replace_injective:
  "b \<notin> set s \<Longrightarrow> b \<notin> set t \<Longrightarrow> py_replace a b s = py_replace a b t \<Longrightarrow> s = t"
proof (induction s arbitrary: t)
  case Nil
  then show ?case by (simp add: py_replace_def)
next
  case (Cons c s)
  then obtain d t' where t: "t = d # t'"
    by (cases t) (auto simp: py_replace_def)
  with Cons.prems have "py_replace a b s = py_replace a b t'" and cd: "(if c = a then b else c) = (if d = a then b else d)"
    by (auto simp: py_replace_def)
  with Cons t have "s = t'" by simp
  moreover from cd Cons.prems t have "c = d" by (auto split: if_splits)
  ultimately show ?case using t by simp
qed

lemma set_py_strip_subset: "set (py_strip P s) \<subseteq> set s"
proof
  fix c
  assume "c \<in> set (py_strip P s)"
  then have "c \<in> set (dropWhile P (rev (dropWhile P s)))"
    by (simp add: py_strip_def)
  then have "c \<in> set (rev (dropWhile P s))" by (rule set_dropWhileD)
  then have "c \<in> set (dropWhile P s)" by simp
  then show "c \<in> set s" by (rule set_dropWhileD)
qed

lemma get_path_slug_nonempty: "get_path_slug p \<noteq> []"
  by (simp add: get_path_slug_def Let_def)

lemma get_path_slug_no_slash: "CHR ''/'' \<notin> set (get_path_slug p)"
proof -
  have "CHR ''/'' \<notin> set (py_replace CHR ''/'' CHR ''_'' s)" for s
    by (rule py_replace_removes) simp
  then show ?thesis by (simp add: get_path_slug_def Let_def)
qed

text \<open>
  C6. The slug is a function of the path alone (the body reads nothing but its argument,
  so two evaluations agree), it is idempotent, the empty path gives \<open>home\<close> and
  \<open>/a/b/\<close> gives \<open>a_b\<close>.
\<close>

theorem get_path_slug_idempotent:
  "get_path_slug (get_path_slug p) = get_path_slug p
   \<and> get_path_slug '''' = ''home''
   \<and> get_path_slug ''/a/b/'' = ''a_b''"
proof (intro conjI)
  let ?s = "get_path_slug p"
  have ns: "CHR ''/'' \<notin> set ?s" by (rule get_path_slug_no_slash)
  then have "py_strip (\<lambda>c. c = CHR ''/'') ?s = ?s"
    by (intro py_strip_no_occurrence) auto
  moreover from ns have "py_replace CHR ''/'' CHR ''_'' ?s = ?s"
    by (rule py_replace_no_occurrence)
  ultimately show "get_path_slug ?s = ?s"
    using get_path_slug_nonempty [of p] by (simp add: get_path_slug_def [of ?s] Let_def)
next
  show "get_path_slug '''' = ''home''"
    by (simp add: get_path_slug_def py_strip_def py_replace_def)
next
  show "get_path_slug ''/a/b/'' = ''a_b''"
    by (simp add: get_path_slug_def py_strip_def py_replace_def)
qed

text \<open>
  C5, as stated, fails: the paths \<open>/a/b\<close> and \<open>/a_b\<close> are different and have the
  same slug \<open>a_b\<close>, so both pages share one output directory. (So do \<open>/a\<close> and
  \<open>/a/\<close>, and \<open>/\<close> and \<open>/home\<close>.)
\<close>

theorem get_path_slug_collision:
  "''/a/b'' \<noteq> ''/a_b'' \<and> get_path_slug ''/a/b'' = get_path_slug ''/a_b''"
  by (simp add: get_path_slug_def py_strip_def py_replace_def)

text \<open>
  C5, amended. Two paths have different slugs when neither contains an underscore, they
  differ after their leading and trailing slashes are stripped, and neither is \<open>home\<close>
  once stripped.
\<close>

theorem get_path_slug_distinct:
  assumes "CHR ''_'' \<notin> set p" and "CHR ''_'' \<notin> set q"
    and "py_strip (\<lambda>c. c = CHR ''/'') p \<noteq> py_strip (\<lambda>c. c = CHR ''/'') q"
    and "py_strip (\<lambda>c. c = CHR ''/'') p \<noteq> ''home''"
    and "py_strip (\<lambda>c. c = CHR ''/'') q \<noteq> ''home''"
  shows "get_path_slug p \<noteq> get_path_slug q"
proof
  let ?sp = "py_strip (\<lambda>c. c = CHR ''/'') p" and ?sq = "py_strip (\<lambda>c. c = CHR ''/'') q"
  let ?r = "py_replace CHR ''/'' CHR ''_''"
  assume eq: "get_path_slug p = get_path_slug q"
  have up: "CHR ''_'' \<notin> set ?sp" and uq: "CHR ''_'' \<notin> set ?sq"
    using assms(1,2) set_py_strip_subset by fastforce+
  have home: "?r ''home'' = ''home''" by (simp add: py_replace_def)
  have uh: "CHR ''_'' \<notin> set ''home''" by simp
  have nh: "?r s \<noteq> ''home''" if "CHR ''_'' \<notin> set s" "s \<noteq> ''home''" for s
    using py_replace_injective [OF that(1) uh] home that(2) by metis
  have empty: "?r s = [] \<longleftrightarrow> s = []" for s by (simp add: py_replace_def)
  from eq have "?r ?sp = ?r ?sq"
    using nh [OF up assms(4)] nh [OF uq assms(5)]
    by (auto simp: get_path_slug_def Let_def empty split: if_splits)
  then have "?sp = ?sq" by (rule py_replace_injective [OF up uq])
  with assms(3) show False by contradiction
qed

text \<open>
  The hypotheses of the amended C5 hold of \<open>/about\<close> and \<open>/contact\<close>.
\<close>

theorem get_path_slug_distinct_witness:
  "get_path_slug ''/about'' \<noteq> get_path_slug ''/contact''"
  using get_path_slug_distinct [of "''/about''" "''/contact''"]
  by (simp add: py_strip_def)

section \<open>Properties of the sitemap fetcher\<close>

text \<open>
  C7, as stated, fails in two places, in both scripts. A response with status 300 is
  neither 2xx nor rejected by \<open>raise_for_status\<close>, so its body is parsed and its
  \<open><loc>\<close> entries are returned. And a malformed response need not give zero URLs: from
  a sitemap that is cut off after its first \<open><loc>\<close> the parser recovers that entry, no
  exception is raised, and the entry is returned.
\<close>

theorem get_sitemap_urls_status_counterexample:
  "multiple_choices_web SOURCE_SITEMAP_URL
       = Response 300 (Document True [''https://bumperdocbrooklyn.com/''])
   \<and> get_sitemap_urls multiple_choices_web SOURCE_SITEMAP_URL
       = [''https://bumperdocbrooklyn.com/'']
   \<and> get_sitemap_urls_alt multiple_choices_web SOURCE_SITEMAP_URL
       = [''https://bumperdocbrooklyn.com/'']
   \<and> truncated_web SOURCE_SITEMAP_URL
       = Response 200 (Document False [''https://bumperdocbrooklyn.com/''])
   \<and> get_sitemap_urls truncated_web SOURCE_SITEMAP_URL
       = [''https://bumperdocbrooklyn.com/'']
   \<and> get_sitemap_urls_alt truncated_web SOURCE_SITEMAP_URL
       = [''https://bumperdocbrooklyn.com/'']"
  by (simp add: get_sitemap_urls_def get_sitemap_urls_alt_def sitemap_body_def
      sitemap_body_alt_def multiple_choices_web_def truncated_web_def raise_for_status_def
      strip_plain)

lemma get_sitemap_urls_alt_eq: "get_sitemap_urls_alt w u = get_sitemap_urls w u"
  by (simp add: get_sitemap_urls_def get_sitemap_urls_alt_def sitemap_body_def
      sitemap_body_alt_def Let_def split: http_result.split soup.split sum.split)

text \<open>
  C7, amended. A response whose status is not 4xx or 5xx and from whose body, well-formed
  or not, the parser gets a document with \<open>N\<close> \<open><loc>\<close> entries yields exactly these
  \<open>N\<close> texts, each stripped of the white space around it, in document order. A failed
  request, a 4xx or 5xx status, a body on which the parser raises and a document without
  \<open><loc>\<close> yield the empty list. The fetcher is a total function into lists: no
  exception leaves it. The variant script returns the same list as the baseline.
\<close>

theorem get_sitemap_urls_spec:
  "(w u = Response st (Document well_formed locs) \<and> \<not> (400 \<le> st \<and> st < 600)
      \<longrightarrow> get_sitemap_urls w u = map py_strip_space locs
          \<and> length (get_sitemap_urls w u) = length locs)
   \<and> (w u = RequestFailed \<longrightarrow> get_sitemap_urls w u = [])
   \<and> (w u = Response st content \<and> 400 \<le> st \<and> st < 600 \<longrightarrow> get_sitemap_urls w u = [])
   \<and> (w u = Response st ParseFailure \<longrightarrow> get_sitemap_urls w u = [])
   \<and> (w u = Response st (Document well_formed []) \<longrightarrow> get_sitemap_urls w u = [])
   \<and> get_sitemap_urls_alt w u = get_sitemap_urls w u"
  by (simp add: get_sitemap_urls_alt_eq)
     (simp add: get_sitemap_urls_def sitemap_body_def raise_for_status_def Let_def)

text \<open>
  The amended C7 at concrete responses: a sitemap of two entries whose first text is
  wrapped in a no-break space, a space, an ideographic space and a line feed; a sitemap
  cut off after its first entry; no network; status 404; a body on which the parser
  raises; and an empty document.
\<close>

theorem get_sitemap_urls_spec_witness:
  "get_sitemap_urls padded_web SOURCE_SITEMAP_URL
     = [''https://bumperdocbrooklyn.com/about'', ''https://bumperdocbrooklyn.com/'']
   \<and> get_sitemap_urls truncated_web SOURCE_SITEMAP_URL = [''https://bumperdocbrooklyn.com/'']
   \<and> get_sitemap_urls offline_web SOURCE_SITEMAP_URL = []
   \<and> get_sitemap_urls not_found_web SOURCE_SITEMAP_URL = []
   \<and> get_sitemap_urls garbled_web SOURCE_SITEMAP_URL = []
   \<and> get_sitemap_urls empty_sitemap_web SOURCE_SITEMAP_URL = []"
proof -
  let ?padded = "[padded_about, ''https://bumperdocbrooklyn.com/'']"
  have "padded_web SOURCE_SITEMAP_URL = Response 200 (Document True ?padded)"
    by (simp add: padded_web_def)
  with get_sitemap_urls_spec [of padded_web SOURCE_SITEMAP_URL 200 True ?padded ParseFailure]
  have a: "get_sitemap_urls padded_web SOURCE_SITEMAP_URL
      = [''https://bumperdocbrooklyn.com/about'', ''https://bumperdocbrooklyn.com/'']"
    by (simp add: strip_padded strip_plain)
  from get_sitemap_urls_spec [of truncated_web SOURCE_SITEMAP_URL 200 False
      "[''https://bumperdocbrooklyn.com/'']" ParseFailure]
  have t: "get_sitemap_urls truncated_web SOURCE_SITEMAP_URL = [''https://bumperdocbrooklyn.com/'']"
    by (simp add: truncated_web_def strip_plain)
  from get_sitemap_urls_spec [of offline_web SOURCE_SITEMAP_URL 200 True "[]" ParseFailure]
  have b: "get_sitemap_urls offline_web SOURCE_SITEMAP_URL = []"
    by (simp add: offline_web_def)
  from get_sitemap_urls_spec [of not_found_web SOURCE_SITEMAP_URL 404 True "[]"
      "Document True [''https://bumperdocbrooklyn.com/'']"]
  have c: "get_sitemap_urls not_found_web SOURCE_SITEMAP_URL = []"
    by (simp add: not_found_web_def)
  from get_sitemap_urls_spec [of garbled_web SOURCE_SITEMAP_URL 200 True "[]" ParseFailure]
  have d: "get_sitemap_urls garbled_web SOURCE_SITEMAP_URL = []"
    by (simp add: garbled_web_def)
  from get_sitemap_urls_spec [of empty_sitemap_web SOURCE_SITEMAP_URL 200 True "[]" ParseFailure]
  have e: "get_sitemap_urls empty_sitemap_web SOURCE_SITEMAP_URL = []"
    by (simp add: empty_sitemap_web_def)
  from a t b c d e show ?thesis by simp
qed

section \<open>Properties of the path reconciliation\<close>

lemma map_of_url_dict_snoc:
  "map_of (url_dict f (us @ [u])) = (map_of (url_dict f us))(f u \<mapsto> u)"
  by (simp add: url_dict_def update_conv')

lemma keys_url_dict: "fst ` set (url_dict f us) = f ` set us"
proof (induction us rule: rev_induct)
  case Nil
  then show ?case by (simp add: url_dict_def)
next
  case (snoc u us)
  have "fst ` set (url_dict f (us @ [u])) = {f u} \<union> fst ` set (url_dict f us)"
    by (simp add: url_dict_def dom_update)
  with snoc show ?case by auto
qed

lemma distinct_url_dict: "distinct (map fst (url_dict f us))"
proof (induction us rule: rev_induct)
  case Nil
  then show ?case by (simp add: url_dict_def)
next
  case (snoc u us)
  then show ?case by (simp add: url_dict_def distinct_update)
qed

lemma map_of_url_dict:
  "map_of (url_dict f us) p =
     (if p \<in> f ` set us then Some (last (filter (\<lambda>v. f v = p) us)) else None)"
proof (induction us rule: rev_induct)
  case Nil
  then show ?case by (simp add: url_dict_def)
next
  case (snoc u us)
  show ?case
    unfolding map_of_url_dict_snoc using snoc by auto
qed

text \<open>
  C9. When several URLs of the input sequence have the same path, the mapping holds for
  that path the URL that comes last in the sequence; \<open>url_dict\<close> is total, so duplicate
  paths are not rejected.
\<close>

theorem url_dict_last_wins:
  "u \<in> set urls \<Longrightarrow>
     map_of (url_dict url_path urls) (url_path u)
       = Some (last (filter (\<lambda>v. url_path v = url_path u) urls))"
  by (simp add: map_of_url_dict)

text \<open>
  C9 at a sequence in which the first and the third URL share the path \<open>/about\<close>.
\<close>

theorem url_dict_last_wins_witness:
  "map_of (url_dict urlparse_path
             [''https://bumperdocbrooklyn.com/about?v=1'', ''https://bumperdocbrooklyn.com/'',
              ''https://bumperdocbrooklyn.com/about?v=2''])
          ''/about''
     = Some ''https://bumperdocbrooklyn.com/about?v=2''"
  using url_dict_last_wins [of "''https://bumperdocbrooklyn.com/about?v=1''"
      "[''https://bumperdocbrooklyn.com/about?v=1'', ''https://bumperdocbrooklyn.com/'',
        ''https://bumperdocbrooklyn.com/about?v=2'']" urlparse_path]
  by (simp add: example_url_paths)

lemma all_paths_sorted_list_of_set:
  "all_paths sm tm = sorted_list_of_set (fst ` set sm \<union> fst ` set tm)"
proof -
  have "sort (remdups (map fst sm @ map fst tm)) = sorted_list_of_set (set (map fst sm @ map fst tm))"
    by (simp only: sorted_list_of_set_sort_remdups)
  then show ?thesis by (simp add: all_paths_def)
qed

lemma set_all_paths: "set (all_paths sm tm) = fst ` set sm \<union> fst ` set tm"
  by (simp add: all_paths_def)

lemma distinct_all_paths: "distinct (all_paths sm tm)"
  by (simp add: all_paths_def)

lemma sorted_all_paths: "sorted (all_paths sm tm)"
  by (simp add: all_paths_def)

text \<open>
  C8. When the source URLs have the paths \<open>A\<close> and \<open>B\<close> and the target URLs the paths
  \<open>B\<close> and \<open>C\<close> (three different paths), the reconciled paths are \<open>A\<close>, \<open>B\<close>,
  \<open>C\<close> in sorted order; \<open>A\<close> is a key of the source mapping only, \<open>B\<close> of both
  mappings, \<open>C\<close> of the target mapping only.
\<close>

theorem reconcile_source_only_both_target_only:
  assumes "url_path ` set src = {A, B}" and "url_path ` set tgt = {B, C}"
    and "A \<noteq> B" and "A \<noteq> C" and "B \<noteq> C"
  shows "all_paths (url_dict url_path src) (url_dict url_path tgt) = sorted_list_of_set {A, B, C}
    \<and> map_of (url_dict url_path src) A \<noteq> None \<and> map_of (url_dict url_path tgt) A = None
    \<and> map_of (url_dict url_path src) B \<noteq> None \<and> map_of (url_dict url_path tgt) B \<noteq> None
    \<and> map_of (url_dict url_path src) C = None \<and> map_of (url_dict url_path tgt) C \<noteq> None"
proof -
  have "{A, B} \<union> {B, C} = {A, B, C}" by auto
  then have "all_paths (url_dict url_path src) (url_dict url_path tgt) = sorted_list_of_set {A, B, C}"
    using assms(1,2) by (simp add: all_paths_sorted_list_of_set keys_url_dict)
  then show ?thesis using assms by (simp add: map_of_url_dict)
qed

text \<open>
  C8 at the source paths \<open>/\<close>, \<open>/about\<close> and the target paths \<open>/about\<close>,
  \<open>/contact\<close>.
\<close>

theorem reconcile_source_only_both_target_only_witness:
  "all_paths
     (url_dict urlparse_path [''https://bumperdocbrooklyn.com/'', ''https://bumperdocbrooklyn.com/about''])
     (url_dict urlparse_path [''https://staging2.bumperdocbrooklyn.com/about'',
                              ''https://staging2.bumperdocbrooklyn.com/contact''])
     = [''/'', ''/about'', ''/contact'']
   \<and> map_of (url_dict urlparse_path [''https://bumperdocbrooklyn.com/'',
                                     ''https://bumperdocbrooklyn.com/about'']) ''/contact'' = None
   \<and> map_of (url_dict urlparse_path [''https://staging2.bumperdocbrooklyn.com/about'',
                              ''https://staging2.bumperdocbrooklyn.com/contact'']) ''/'' = None"
proof -
  let ?src = "[''https://bumperdocbrooklyn.com/'', ''https://bumperdocbrooklyn.com/about'']"
  let ?tgt = "[''https://staging2.bumperdocbrooklyn.com/about'',
               ''https://staging2.bumperdocbrooklyn.com/contact'']"
  have s: "urlparse_path ` set ?src = {''/'', ''/about''}"
    by (simp add: example_url_paths)
  have t: "urlparse_path ` set ?tgt = {''/about'', ''/contact''}"
    by (simp add: example_url_paths)
  have l: "sorted_list_of_set {''/'', ''/about'', ''/contact''} = [''/'', ''/about'', ''/contact'']"
    by code_simp
  from reconcile_source_only_both_target_only [OF s t] l show ?thesis by simp
qed

section \<open>Properties of the page capture\<close>

lemma capture_attempts_all_fail:
  "\<forall>a \<in> set as. driver url out a = AutomationError
     \<Longrightarrow> capture_attempts driver url out as = Inr False"
  by (induction as) simp_all

lemma capture_attempts_returns:
  "\<forall>a \<in> set as. driver url out a \<noteq> OtherError
     \<Longrightarrow> \<exists>b. capture_attempts driver url out as = Inr b"
  by (induction as) (auto split: attempt.split)

lemma attempts_list: "[1 ..< RETRY_COUNT + 1] = [1, 2]"
  by (simp add: RETRY_COUNT_def upt_conv_Cons)

lemma take_fullpage_screenshot_two_attempts:
  "take_fullpage_screenshot driver url out = capture_attempts driver url out [1, 2]"
  by (simp only: take_fullpage_screenshot_def attempts_list)

lemma take_fullpage_screenshot_second_attempt:
  "driver url out 1 = AutomationError \<Longrightarrow> driver url out 2 = Captured
     \<Longrightarrow> take_fullpage_screenshot driver url out = Inr True"
  by (simp add: take_fullpage_screenshot_two_attempts)

lemma attempts_range: "set [1 ..< RETRY_COUNT + 1] = {1 .. RETRY_COUNT}"
  by auto

lemma take_fullpage_screenshot_all_fail:
  "\<forall>a \<in> {1 .. RETRY_COUNT}. driver url out a = AutomationError
     \<Longrightarrow> take_fullpage_screenshot driver url out = Inr False"
  unfolding take_fullpage_screenshot_def
  by (rule capture_attempts_all_fail) (simp only: attempts_range)

lemma take_fullpage_screenshot_returns:
  "\<forall>a. driver url out a \<noteq> OtherError \<Longrightarrow> \<exists>b. take_fullpage_screenshot driver url out = Inr b"
  unfolding take_fullpage_screenshot_def
  by (rule capture_attempts_returns) simp

lemma capture_side_all_fail:
  "\<forall>a \<in> {1 .. RETRY_COUNT}. driver u img a = AutomationError
     \<Longrightarrow> capture_side driver (Some u) img = Inr False"
  by (simp add: capture_side_def take_fullpage_screenshot_all_fail)

lemma capture_side_returns:
  "\<forall>u img a. driver u img a \<noteq> OtherError \<Longrightarrow> \<exists>b. capture_side driver url img = Inr b"
  using take_fullpage_screenshot_returns [of driver]
  by (auto simp: capture_side_def split: option.split)

text \<open>
  C2 does not hold of the baseline script. When the screenshot file cannot be written,
  the exception is not a \<open>WebDriverException\<close>: the baseline's
  \<open>take_fullpage_screenshot\<close> does not return \<open>False\<close>, the exception leaves it and
  ends \<open>run_test\<close> before any report is written. The variant script, on the same input,
  returns \<open>False\<close>.
\<close>

theorem take_fullpage_screenshot_write_failure:
  "take_fullpage_screenshot read_only_disk_driver ''https://bumperdocbrooklyn.com/about''
      (source_img REPORT_DIR ''/about'') = Inl OtherException
   \<and> take_fullpage_screenshot_alt read_only_disk_driver ''https://bumperdocbrooklyn.com/about''
      (source_img REPORT_DIR_alt ''/about'') = False
   \<and> run_test urlparse_raises urlparse_path target_down_web log_file_disk read_only_disk_driver
      = Inl OtherException"
  by (simp add: take_fullpage_screenshot_two_attempts read_only_disk_driver_def run_test_def
      example_defs run_defs)

section \<open>Properties of the orchestrator\<close>

lemma compare_page_make_entry:
  "compare_page mk driver sm tm p = Inr e \<Longrightarrow>
     \<exists>s t. capture_side driver (map_of sm p) (source_img REPORT_DIR p) = Inr s
         \<and> capture_side driver (map_of tm p) (target_img REPORT_DIR p) = Inr t
         \<and> e = make_entry p s t"
  by (auto simp: compare_page_def split: sum.splits if_splits)

lemma compare_page_alt_make_entry:
  "compare_page_alt mk driver sm tm p = Inr e \<Longrightarrow>
     e = make_entry p
           (capture_side_alt driver (map_of sm p) (source_img REPORT_DIR_alt p))
           (capture_side_alt driver (map_of tm p) (target_img REPORT_DIR_alt p))"
  by (auto simp: compare_page_alt_def Let_def split: if_splits)

lemma compare_page_path: "compare_page mk driver sm tm p = Inr e \<Longrightarrow> path e = p"
  by (auto dest!: compare_page_make_entry simp: make_entry_def)

lemma compare_page_alt_path: "compare_page_alt mk driver sm tm p = Inr e \<Longrightarrow> path e = p"
  by (auto dest!: compare_page_alt_make_entry simp: make_entry_def)

lemma compare_pages_paths:
  assumes "\<And>p e. body p = Inr e \<Longrightarrow> path e = p"
  shows "compare_pages body ps = Inr es \<Longrightarrow> map path es = ps"
proof (induction ps arbitrary: es)
  case Nil
  then show ?case by simp
next
  case (Cons p ps)
  from Cons.prems obtain e es' where e: "body p = Inr e"
    and es': "compare_pages body ps = Inr es'" and es: "es = e # es'"
    by (auto split: sum.splits)
  from e have "path e = p" by (rule assms)
  with Cons.IH [OF es'] es show ?case by simp
qed

lemma compare_pages_entry:
  assumes "\<And>p e. body p = Inr e \<Longrightarrow> path e = p"
  shows "compare_pages body ps = Inr es \<Longrightarrow> e \<in> set es \<Longrightarrow> body (path e) = Inr e"
proof (induction ps arbitrary: es)
  case Nil
  then show ?case by simp
next
  case (Cons p ps)
  from Cons.prems(1) obtain e0 es' where e0: "body p = Inr e0"
    and es': "compare_pages body ps = Inr es'" and es: "es = e0 # es'"
    by (auto split: sum.splits)
  from e0 have "path e0 = p" by (rule assms)
  with e0 Cons.IH [OF es'] Cons.prems(2) es show ?case by auto
qed

lemma compare_pages_has_entry:
  assumes "\<And>p e. body p = Inr e \<Longrightarrow> path e = p"
    and "compare_pages body ps = Inr es" and "p \<in> set ps"
  shows "\<exists>e \<in> set es. path e = p \<and> body p = Inr e"
proof -
  from assms(1,2) have "map path es = ps" by (rule compare_pages_paths)
  with assms(3) obtain e where e: "e \<in> set es" "path e = p" by auto
  from compare_pages_entry [of body ps es e, OF assms(1,2) e(1)] e(2)
  have "body p = Inr e" by simp
  with e show ?thesis by blast
qed

lemma compare_pages_returns:
  "\<forall>p \<in> set ps. \<exists>e. body p = Inr e \<Longrightarrow> \<exists>es. compare_pages body ps = Inr es"
  by (induction ps) auto

lemma baseline_loop:
  assumes "compare_pages (compare_page mk driver sm tm) ps = Inr es"
  shows "map path es = ps"
    and "e \<in> set es \<Longrightarrow> compare_page mk driver sm tm (path e) = Inr e"
    and "p \<in> set ps \<Longrightarrow> \<exists>e \<in> set es. path e = p \<and> compare_page mk driver sm tm p = Inr e"
proof -
  have pth: "\<And>p e. compare_page mk driver sm tm p = Inr e \<Longrightarrow> path e = p"
    by (rule compare_page_path)
  from pth assms show "map path es = ps" by (rule compare_pages_paths)
  show "compare_page mk driver sm tm (path e) = Inr e" if "e \<in> set es"
    using pth assms that by (rule compare_pages_entry)
  show "\<exists>e \<in> set es. path e = p \<and> compare_page mk driver sm tm p = Inr e" if "p \<in> set ps"
    using pth assms that by (rule compare_pages_has_entry)
qed

lemma variant_loop:
  assumes "compare_pages (compare_page_alt mk driver sm tm) ps = Inr es"
  shows "map path es = ps"
    and "e \<in> set es \<Longrightarrow> compare_page_alt mk driver sm tm (path e) = Inr e"
    and "p \<in> set ps \<Longrightarrow> \<exists>e \<in> set es. path e = p \<and> compare_page_alt mk driver sm tm p = Inr e"
proof -
  have pth: "\<And>p e. compare_page_alt mk driver sm tm p = Inr e \<Longrightarrow> path e = p"
    by (rule compare_page_alt_path)
  from pth assms show "map path es = ps" by (rule compare_pages_paths)
  show "compare_page_alt mk driver sm tm (path e) = Inr e" if "e \<in> set es"
    using pth assms that by (rule compare_pages_entry)
  show "\<exists>e \<in> set es. path e = p \<and> compare_page_alt mk driver sm tm p = Inr e"
    if "p \<in> set ps"
    using pth assms that by (rule compare_pages_has_entry)
qed

lemma compare_page_returns:
  assumes "\<not> mk (page_dir REPORT_DIR p)" and "\<forall>u img a. driver u img a \<noteq> OtherError"
  shows "\<exists>e. compare_page mk driver sm tm p = Inr e"
proof -
  from assms(2) obtain s t
    where "capture_side driver (map_of sm p) (source_img REPORT_DIR p) = Inr s"
      and "capture_side driver (map_of tm p) (target_img REPORT_DIR p) = Inr t"
    using capture_side_returns [of driver] by meson
  with assms(1) show ?thesis by (simp add: compare_page_def)
qed

lemma path_dict_Inr:
  "path_dict bad_url url_path urls = Inr d \<longleftrightarrow> \<not> list_ex bad_url urls \<and> d = url_dict url_path urls"
  by (auto simp: path_dict_def)

lemma run_test_entries:
  "run_test bad_url url_path w mk driver = Inr r \<Longrightarrow>
     compare_pages
       (compare_page mk driver (url_dict url_path (source_urls w)) (url_dict url_path (target_urls w)))
       (all_paths (url_dict url_path (source_urls w)) (url_dict url_path (target_urls w)))
     = Inr (report_entries r)
   \<and> index_html r = generate_html_report (report_entries r)"
  by (auto simp: run_test_def path_dict_Inr split: sum.splits)

lemma run_test_alt_entries:
  "run_test_alt bad_url url_path w mk driver = Inr r \<Longrightarrow>
     compare_pages
       (compare_page_alt mk driver (url_dict url_path (source_urls_alt w))
          (url_dict url_path (target_urls_alt w)))
       (all_paths (url_dict url_path (source_urls_alt w)) (url_dict url_path (target_urls_alt w)))
     = Inr (report_entries r)
   \<and> index_html r = generate_html_report_alt (report_entries r)"
  by (auto simp: run_test_alt_def path_dict_Inr split: sum.splits)

lemma run_test_paths:
  assumes "run_test bad_url url_path w mk driver = Inr r"
  shows "map path (report_entries r)
       = all_paths (url_dict url_path (source_urls w)) (url_dict url_path (target_urls w))"
proof -
  let ?sm = "url_dict url_path (source_urls w)" and ?tm = "url_dict url_path (target_urls w)"
  from assms
  have "compare_pages (compare_page mk driver ?sm ?tm) (all_paths ?sm ?tm) = Inr (report_entries r)"
    by (blast dest: run_test_entries)
  then show ?thesis by (rule baseline_loop(1))
qed

lemma run_test_alt_paths:
  assumes "run_test_alt bad_url url_path w mk driver = Inr r"
  shows "map path (report_entries r)
       = all_paths (url_dict url_path (source_urls_alt w)) (url_dict url_path (target_urls_alt w))"
proof -
  let ?sm = "url_dict url_path (source_urls_alt w)"
  let ?tm = "url_dict url_path (target_urls_alt w)"
  from assms
  have "compare_pages (compare_page_alt mk driver ?sm ?tm) (all_paths ?sm ?tm)
      = Inr (report_entries r)"
    by (blast dest: run_test_alt_entries)
  then show ?thesis by (rule variant_loop(1))
qed

lemma run_test_returns:
  assumes "\<not> list_ex bad_url (source_urls w)" and "\<not> list_ex bad_url (target_urls w)"
    and "\<forall>p \<in> set (all_paths (url_dict url_path (source_urls w))
                               (url_dict url_path (target_urls w))).
           \<not> mk (page_dir REPORT_DIR p)"
    and "\<forall>u img a. driver u img a \<noteq> OtherError"
  shows "\<exists>r. run_test bad_url url_path w mk driver = Inr r"
proof -
  let ?sm = "url_dict url_path (source_urls w)" and ?tm = "url_dict url_path (target_urls w)"
  from assms(3,4) have "\<forall>p \<in> set (all_paths ?sm ?tm). \<exists>e. compare_page mk driver ?sm ?tm p = Inr e"
    by (blast intro: compare_page_returns)
  then obtain es
    where "compare_pages (compare_page mk driver ?sm ?tm) (all_paths ?sm ?tm) = Inr es"
    by (blast dest: compare_pages_returns)
  with assms(1,2) show ?thesis by (simp add: run_test_def path_dict_def)
qed

lemma run_test_alt_returns:
  assumes "\<not> list_ex bad_url (source_urls_alt w)" and "\<not> list_ex bad_url (target_urls_alt w)"
    and "\<forall>p \<in> set (all_paths (url_dict url_path (source_urls_alt w))
                               (url_dict url_path (target_urls_alt w))).
           \<not> mk (page_dir REPORT_DIR_alt p)"
  shows "\<exists>r. run_test_alt bad_url url_path w mk driver = Inr r"
proof -
  let ?sm = "url_dict url_path (source_urls_alt w)"
  let ?tm = "url_dict url_path (target_urls_alt w)"
  from assms(3)
  have "\<forall>p \<in> set (all_paths ?sm ?tm). \<exists>e. compare_page_alt mk driver ?sm ?tm p = Inr e"
    by (simp add: compare_page_alt_def Let_def)
  then obtain es
    where "compare_pages (compare_page_alt mk driver ?sm ?tm) (all_paths ?sm ?tm) = Inr es"
    by (blast dest: compare_pages_returns)
  with assms(1,2) show ?thesis by (simp add: run_test_alt_def path_dict_def)
qed

lemma run_test_bad_url:
  assumes "list_ex bad_url (source_urls w) \<or> list_ex bad_url (target_urls w)"
  shows "run_test bad_url url_path w mk driver = Inl ValueError"
  using assms by (auto simp: run_test_def path_dict_def)

lemma run_test_alt_bad_url:
  assumes "list_ex bad_url (source_urls_alt w) \<or> list_ex bad_url (target_urls_alt w)"
  shows "run_test_alt bad_url url_path w mk driver = Inl ValueError"
  using assms by (auto simp: run_test_alt_def path_dict_def)

lemma compare_page_makedirs:
  "mk (page_dir REPORT_DIR p) \<Longrightarrow> compare_page mk driver sm tm p = Inl OSError"
  "mk (page_dir REPORT_DIR_alt p) \<Longrightarrow> compare_page_alt mk driver sm tm p = Inl OSError"
  by (simp_all add: compare_page_def compare_page_alt_def)

lemma example_run:
  "run_test urlparse_raises urlparse_path example_web log_file_disk example_driver
     = Inr \<lparr> report_entries = example_entries, index_html = generate_html_report example_entries \<rparr>"
  by (simp add: run_test_def example_defs example_driver_def example_entries_def run_defs
      take_fullpage_screenshot_two_attempts)

lemma example_run_alt:
  "run_test_alt urlparse_raises urlparse_path example_web log_file_disk example_driver
     = Inr \<lparr> report_entries = example_entries,
             index_html = generate_html_report_alt example_entries \<rparr>"
  by (simp add: run_test_alt_def example_defs example_driver_def example_entries_def run_defs)

lemma example_paths: "map path example_entries = [''/'', ''/about'', ''/contact'']"
  by (simp add: example_entries_def)

lemma example_all_paths:
  "all_paths (url_dict urlparse_path (source_urls example_web))
             (url_dict urlparse_path (target_urls example_web)) = [''/'', ''/about'', ''/contact'']"
  by (simp add: example_defs)

lemma example_all_paths_alt:
  "all_paths (url_dict urlparse_path (source_urls_alt example_web))
             (url_dict urlparse_path (target_urls_alt example_web)) = [''/'', ''/about'', ''/contact'']"
  by (simp add: example_defs)

lemma example_source_about:
  "map_of (url_dict urlparse_path (source_urls example_web)) ''/about''
     = Some ''https://bumperdocbrooklyn.com/about''"
  "map_of (url_dict urlparse_path (source_urls_alt example_web)) ''/about''
     = Some ''https://bumperdocbrooklyn.com/about''"
  by (simp_all add: example_defs)

lemma example_target_contact:
  "map_of (url_dict urlparse_path (target_urls example_web)) ''/contact''
     = Some ''https://staging2.bumperdocbrooklyn.com/contact''"
  "map_of (url_dict urlparse_path (target_urls_alt example_web)) ''/contact''
     = Some ''https://staging2.bumperdocbrooklyn.com/contact''"
  by (simp_all add: example_defs)

text \<open>
  C1. The paths of the report entries, in the order of the entries, are the sorted list of
  the union of the keys of the source mapping and of the target mapping: each path of
  either site once, in ascending order. This holds of the entries of every run that
  produces them, of the baseline and of the variant; a run that an exception ends
  produces no entries.
\<close>

theorem report_paths_sorted_union:
  "(run_test bad_url url_path w makedirs_raises driver = Inr r \<longrightarrow>
      map path (report_entries r)
        = sorted_list_of_set (fst ` set (url_dict url_path (source_urls w))
                              \<union> fst ` set (url_dict url_path (target_urls w)))
      \<and> set (map path (report_entries r))
          = url_path ` set (source_urls w) \<union> url_path ` set (target_urls w)
      \<and> distinct (map path (report_entries r))
      \<and> sorted (map path (report_entries r)))
   \<and> (run_test_alt bad_url url_path w makedirs_raises driver = Inr r' \<longrightarrow>
      map path (report_entries r')
        = sorted_list_of_set (fst ` set (url_dict url_path (source_urls_alt w))
                              \<union> fst ` set (url_dict url_path (target_urls_alt w)))
      \<and> set (map path (report_entries r'))
          = url_path ` set (source_urls_alt w) \<union> url_path ` set (target_urls_alt w)
      \<and> distinct (map path (report_entries r'))
      \<and> sorted (map path (report_entries r')))"
proof (intro conjI impI)
  assume "run_test bad_url url_path w makedirs_raises driver = Inr r"
  then have p: "map path (report_entries r)
      = all_paths (url_dict url_path (source_urls w)) (url_dict url_path (target_urls w))"
    by (rule run_test_paths)
  show "map path (report_entries r)
        = sorted_list_of_set (fst ` set (url_dict url_path (source_urls w))
                              \<union> fst ` set (url_dict url_path (target_urls w)))"
    unfolding p by (rule all_paths_sorted_list_of_set)
  show "set (map path (report_entries r))
          = url_path ` set (source_urls w) \<union> url_path ` set (target_urls w)"
    unfolding p by (simp only: set_all_paths keys_url_dict)
  show "distinct (map path (report_entries r))" unfolding p by (rule distinct_all_paths)
  show "sorted (map path (report_entries r))" unfolding p by (rule sorted_all_paths)
next
  assume "run_test_alt bad_url url_path w makedirs_raises driver = Inr r'"
  then have p: "map path (report_entries r')
      = all_paths (url_dict url_path (source_urls_alt w)) (url_dict url_path (target_urls_alt w))"
    by (rule run_test_alt_paths)
  show "map path (report_entries r')
        = sorted_list_of_set (fst ` set (url_dict url_path (source_urls_alt w))
                              \<union> fst ` set (url_dict url_path (target_urls_alt w)))"
    unfolding p by (rule all_paths_sorted_list_of_set)
  show "set (map path (report_entries r'))
        = url_path ` set (source_urls_alt w) \<union> url_path ` set (target_urls_alt w)"
    unfolding p by (simp only: set_all_paths keys_url_dict)
  show "distinct (map path (report_entries r'))" unfolding p by (rule distinct_all_paths)
  show "sorted (map path (report_entries r'))" unfolding p by (rule sorted_all_paths)
qed

text \<open>
  C1 at the worked example: both scripts produce the entries of \<open>/\<close>, \<open>/about\<close>,
  \<open>/contact\<close>, in this order.
\<close>

theorem report_paths_sorted_union_witness:
  "run_test urlparse_raises urlparse_path example_web log_file_disk example_driver
     = Inr \<lparr> report_entries = example_entries, index_html = generate_html_report example_entries \<rparr>
   \<and> run_test_alt urlparse_raises urlparse_path example_web log_file_disk example_driver
     = Inr \<lparr> report_entries = example_entries,
             index_html = generate_html_report_alt example_entries \<rparr>
   \<and> map path example_entries = [''/'', ''/about'', ''/contact'']
   \<and> map path example_entries
        = sorted_list_of_set (fst ` set (url_dict urlparse_path (source_urls example_web))
                              \<union> fst ` set (url_dict urlparse_path (target_urls example_web)))
   \<and> map path example_entries
        = sorted_list_of_set (fst ` set (url_dict urlparse_path (source_urls_alt example_web))
                              \<union> fst ` set (url_dict urlparse_path (target_urls_alt example_web)))
   \<and> set (map path example_entries)
        = urlparse_path ` set (source_urls example_web) \<union> urlparse_path ` set (target_urls example_web)
   \<and> distinct (map path example_entries)
   \<and> sorted (map path example_entries)"
proof -
  let ?r = "\<lparr> report_entries = example_entries,
              index_html = generate_html_report example_entries \<rparr>"
  let ?r' = "\<lparr> report_entries = example_entries,
               index_html = generate_html_report_alt example_entries \<rparr>"
  have run: "run_test urlparse_raises urlparse_path example_web log_file_disk example_driver
      = Inr ?r"
    by (rule example_run)
  have run': "run_test_alt urlparse_raises urlparse_path example_web log_file_disk example_driver
      = Inr ?r'"
    by (rule example_run_alt)
  have sel: "report_entries ?r = example_entries" "report_entries ?r' = example_entries"
    by simp_all
  from report_paths_sorted_union [of urlparse_raises urlparse_path example_web log_file_disk
      example_driver ?r ?r'] run run'
  have "map path (report_entries ?r)
        = sorted_list_of_set (fst ` set (url_dict urlparse_path (source_urls example_web))
                              \<union> fst ` set (url_dict urlparse_path (target_urls example_web)))
      \<and> set (map path (report_entries ?r))
        = urlparse_path ` set (source_urls example_web) \<union> urlparse_path ` set (target_urls example_web)
      \<and> distinct (map path (report_entries ?r))
      \<and> sorted (map path (report_entries ?r))
      \<and> map path (report_entries ?r')
        = sorted_list_of_set (fst ` set (url_dict urlparse_path (source_urls_alt example_web))
                              \<union> fst ` set (url_dict urlparse_path (target_urls_alt example_web)))"
    by blast
  then show ?thesis
    unfolding sel using run run' example_paths by blast
qed

lemma make_entry_flags:
  "(source (make_entry p s t) = None \<longleftrightarrow> source_failed (make_entry p s t))
   \<and> (target (make_entry p s t) = None \<longleftrightarrow> target_failed (make_entry p s t))
   \<and> (source_failed (make_entry p s t) \<longleftrightarrow> \<not> s)
   \<and> (target_failed (make_entry p s t) \<longleftrightarrow> \<not> t)
   \<and> path (make_entry p s t) = p"
  by (simp add: make_entry_def)

lemma capture_side_None: "capture_side driver None img = Inr b \<Longrightarrow> \<not> b"
  by (simp add: capture_side_def)

lemma compare_page_flags:
  assumes "compare_page mk driver sm tm p = Inr e"
  shows "(source e = None \<longleftrightarrow> source_failed e) \<and> (target e = None \<longleftrightarrow> target_failed e)
    \<and> (map_of sm p = None \<longrightarrow> source e = None \<and> source_failed e)
    \<and> (map_of tm p = None \<longrightarrow> target e = None \<and> target_failed e)"
proof -
  from assms obtain s t
    where s: "capture_side driver (map_of sm p) (source_img REPORT_DIR p) = Inr s"
      and t: "capture_side driver (map_of tm p) (target_img REPORT_DIR p) = Inr t"
      and e: "e = make_entry p s t"
    by (blast dest: compare_page_make_entry)
  have "map_of sm p = None \<longrightarrow> \<not> s" using s by (auto dest: capture_side_None)
  moreover have "map_of tm p = None \<longrightarrow> \<not> t" using t by (auto dest: capture_side_None)
  ultimately show ?thesis unfolding e by (auto simp: make_entry_def)
qed

lemma compare_page_alt_flags:
  assumes "compare_page_alt mk driver sm tm p = Inr e"
  shows "(source e = None \<longleftrightarrow> source_failed e) \<and> (target e = None \<longleftrightarrow> target_failed e)
    \<and> (map_of sm p = None \<longrightarrow> source e = None \<and> source_failed e)
    \<and> (map_of tm p = None \<longrightarrow> target e = None \<and> target_failed e)"
  unfolding compare_page_alt_make_entry [OF assms]
  by (simp add: make_entry_def capture_side_alt_def)

text \<open>
  C10. In every report entry the source image is absent exactly when \<open>source_failed\<close>
  is set, and the target image is absent exactly when \<open>target_failed\<close> is set. A path
  that is not a key of a site's mapping gives an entry whose image for that site is
  absent and whose failure flag for that site is set, as after a failed capture.
\<close>

theorem report_entry_flags:
  "(run_test bad_url url_path w makedirs_raises driver = Inr r \<and> e \<in> set (report_entries r) \<longrightarrow>
      (source e = None \<longleftrightarrow> source_failed e) \<and> (target e = None \<longleftrightarrow> target_failed e)
      \<and> (map_of (url_dict url_path (source_urls w)) (path e) = None
           \<longrightarrow> source e = None \<and> source_failed e)
      \<and> (map_of (url_dict url_path (target_urls w)) (path e) = None
           \<longrightarrow> target e = None \<and> target_failed e))
   \<and> (run_test_alt bad_url url_path w makedirs_raises driver = Inr r'
        \<and> e' \<in> set (report_entries r') \<longrightarrow>
      (source e' = None \<longleftrightarrow> source_failed e') \<and> (target e' = None \<longleftrightarrow> target_failed e')
      \<and> (map_of (url_dict url_path (source_urls_alt w)) (path e') = None
           \<longrightarrow> source e' = None \<and> source_failed e')
      \<and> (map_of (url_dict url_path (target_urls_alt w)) (path e') = None
           \<longrightarrow> target e' = None \<and> target_failed e'))"
proof (rule conjI; rule impI)
  let ?sm = "url_dict url_path (source_urls w)" and ?tm = "url_dict url_path (target_urls w)"
  assume h: "run_test bad_url url_path w makedirs_raises driver = Inr r \<and> e \<in> set (report_entries r)"
  then have "compare_pages (compare_page makedirs_raises driver ?sm ?tm) (all_paths ?sm ?tm)
      = Inr (report_entries r)"
    by (blast dest: run_test_entries)
  with h have "compare_page makedirs_raises driver ?sm ?tm (path e) = Inr e"
    by (blast intro: baseline_loop(2))
  then show "(source e = None \<longleftrightarrow> source_failed e) \<and> (target e = None \<longleftrightarrow> target_failed e)
      \<and> (map_of ?sm (path e) = None \<longrightarrow> source e = None \<and> source_failed e)
      \<and> (map_of ?tm (path e) = None \<longrightarrow> target e = None \<and> target_failed e)"
    by (rule compare_page_flags)
next
  let ?sm = "url_dict url_path (source_urls_alt w)" and ?tm = "url_dict url_path (target_urls_alt w)"
  assume h: "run_test_alt bad_url url_path w makedirs_raises driver = Inr r'
      \<and> e' \<in> set (report_entries r')"
  then have "compare_pages (compare_page_alt makedirs_raises driver ?sm ?tm) (all_paths ?sm ?tm)
      = Inr (report_entries r')"
    by (blast dest: run_test_alt_entries)
  with h have "compare_page_alt makedirs_raises driver ?sm ?tm (path e') = Inr e'"
    by (blast intro: variant_loop(2))
  then show "(source e' = None \<longleftrightarrow> source_failed e') \<and> (target e' = None \<longleftrightarrow> target_failed e')
      \<and> (map_of ?sm (path e') = None \<longrightarrow> source e' = None \<and> source_failed e')
      \<and> (map_of ?tm (path e') = None \<longrightarrow> target e' = None \<and> target_failed e')"
    by (rule compare_page_alt_flags)
qed

text \<open>
  C10 at the worked example: the entry of \<open>/\<close>, a path the target lacks, and the
  entry of \<open>/contact\<close>, a path the source lacks.
\<close>

theorem report_entry_flags_witness:
  "run_test urlparse_raises urlparse_path example_web log_file_disk example_driver
     = Inr \<lparr> report_entries = example_entries, index_html = generate_html_report example_entries \<rparr>
   \<and> example_entries ! 0 \<in> set example_entries
   \<and> map_of (url_dict urlparse_path (target_urls example_web)) (path (example_entries ! 0)) = None
   \<and> target (example_entries ! 0) = None \<and> target_failed (example_entries ! 0)
   \<and> source (example_entries ! 0) \<noteq> None \<and> \<not> source_failed (example_entries ! 0)
   \<and> run_test_alt urlparse_raises urlparse_path example_web log_file_disk example_driver
     = Inr \<lparr> report_entries = example_entries,
             index_html = generate_html_report_alt example_entries \<rparr>
   \<and> example_entries ! 2 \<in> set example_entries
   \<and> map_of (url_dict urlparse_path (source_urls_alt example_web)) (path (example_entries ! 2)) = None
   \<and> source (example_entries ! 2) = None \<and> source_failed (example_entries ! 2)"
proof -
  let ?r = "\<lparr> report_entries = example_entries,
              index_html = generate_html_report example_entries \<rparr>"
  let ?r' = "\<lparr> report_entries = example_entries,
               index_html = generate_html_report_alt example_entries \<rparr>"
  have run: "run_test urlparse_raises urlparse_path example_web log_file_disk example_driver
      = Inr ?r"
    by (rule example_run)
  have run': "run_test_alt urlparse_raises urlparse_path example_web log_file_disk example_driver
      = Inr ?r'"
    by (rule example_run_alt)
  have m0: "example_entries ! 0 \<in> set (report_entries ?r)" by (simp add: example_entries_def)
  have m2: "example_entries ! 2 \<in> set (report_entries ?r')" by (simp add: example_entries_def)
  have t0: "map_of (url_dict urlparse_path (target_urls example_web)) (path (example_entries ! 0)) = None"
    by (simp add: example_defs example_entries_def)
  have s2: "map_of (url_dict urlparse_path (source_urls_alt example_web)) (path (example_entries ! 2)) = None"
    by (simp add: example_defs example_entries_def)
  have s0: "source (example_entries ! 0) \<noteq> None"
    by (simp add: example_entries_def)
  from report_entry_flags [of urlparse_raises urlparse_path example_web log_file_disk
      example_driver ?r "example_entries ! 0" ?r' "example_entries ! 2"] run run' m0 m2 t0 s2 s0
  show ?thesis by simp
qed

lemma join_lines_append:
  "xs \<noteq> [] \<Longrightarrow> ys \<noteq> [] \<Longrightarrow> join_lines (xs @ ys) = join_lines xs @ newline @ join_lines ys"
proof (induction xs rule: join_lines.induct)
  case 1
  then show ?case by simp
next
  case (2 l)
  then show ?case by (cases ys) simp_all
next
  case (3 l l' ls)
  then show ?case by simp
qed

lemma join_lines_block:
  assumes "pre \<noteq> []" and "block \<noteq> []" and "post \<noteq> []"
  shows "join_lines (pre @ block @ post)
    = join_lines pre @ newline @ join_lines block @ newline @ join_lines post"
  using assms by (simp add: join_lines_append)

lemma join_lines_entry_html:
  "join_lines (entry_html e)
     = ''<div class='page'><h2>'' @ path e @ ''</h2>'' @ newline @ checkbox_line @ newline
         @ source_html e @ newline @ target_html e @ newline @ ''</div>''"
  by (simp add: entry_html_def)

lemma report_text_block:
  assumes "e \<in> set es" and "hd_lines \<noteq> []"
  shows "\<exists>a b. join_lines (html_lines hd_lines es)
    = a @ newline @ ''<div class='page'><h2>'' @ path e @ ''</h2>'' @ newline @ checkbox_line
        @ newline @ source_html e @ newline @ target_html e @ newline @ ''</div>'' @ newline @ b"
proof -
  from assms(1) obtain xs ys where "es = xs @ e # ys" by (auto dest: split_list)
  then have "html_lines hd_lines es
      = (hd_lines @ concat (map entry_html xs)) @ entry_html e
          @ (concat (map entry_html ys) @ [''</body></html>''])"
    by (simp add: html_lines_def)
  moreover have "entry_html e \<noteq> []" by (simp add: entry_html_def)
  ultimately have "join_lines (html_lines hd_lines es)
      = join_lines (hd_lines @ concat (map entry_html xs)) @ newline @ join_lines (entry_html e)
          @ newline @ join_lines (concat (map entry_html ys) @ [''</body></html>''])"
    using assms(2) by (simp only: join_lines_block [of "hd_lines @ concat (map entry_html xs)"
          "entry_html e" "concat (map entry_html ys) @ [''</body></html>'']"] append_is_Nil_conv
        not_Cons_self2 simp_thms)
  then show ?thesis unfolding join_lines_entry_html by (metis append.assoc)
qed

lemma source_html_None: "source e = None \<Longrightarrow> source_html e = source_missing"
  by (simp add: source_html_def)

lemma target_html_None: "target e = None \<Longrightarrow> target_html e = target_missing"
  by (simp add: target_html_def)

lemma compare_page_source_fails:
  assumes "compare_page mk driver sm tm p = Inr e" and "map_of sm p = Some u"
    and "\<forall>a \<in> {1 .. RETRY_COUNT}. driver u (source_img REPORT_DIR p) a = AutomationError"
  shows "source e = None \<and> source_failed e"
proof -
  from assms(1) obtain s t
    where s: "capture_side driver (map_of sm p) (source_img REPORT_DIR p) = Inr s"
      and e: "e = make_entry p s t"
    by (blast dest: compare_page_make_entry)
  from s assms(2) capture_side_all_fail [of driver u "source_img REPORT_DIR p"] assms(3)
  have "\<not> s" by simp
  then show ?thesis unfolding e by (simp add: make_entry_def)
qed

lemma compare_page_target_fails:
  assumes "compare_page mk driver sm tm p = Inr e" and "map_of tm p = Some u"
    and "\<forall>a \<in> {1 .. RETRY_COUNT}. driver u (target_img REPORT_DIR p) a = AutomationError"
  shows "target e = None \<and> target_failed e"
proof -
  from assms(1) obtain s t
    where t: "capture_side driver (map_of tm p) (target_img REPORT_DIR p) = Inr t"
      and e: "e = make_entry p s t"
    by (blast dest: compare_page_make_entry)
  from t assms(2) capture_side_all_fail [of driver u "target_img REPORT_DIR p"] assms(3)
  have "\<not> t" by simp
  then show ?thesis unfolding e by (simp add: make_entry_def)
qed

lemma compare_page_alt_source_fails:
  assumes "compare_page_alt mk driver sm tm p = Inr e" and "map_of sm p = Some u"
    and "driver u (source_img REPORT_DIR_alt p) 1 \<noteq> Captured"
  shows "source e = None \<and> source_failed e"
  unfolding compare_page_alt_make_entry [OF assms(1)] using assms(2,3)
  by (simp add: make_entry_def capture_side_alt_def take_fullpage_screenshot_alt_def
      split: attempt.split)

lemma compare_page_alt_target_fails:
  assumes "compare_page_alt mk driver sm tm p = Inr e" and "map_of tm p = Some u"
    and "driver u (target_img REPORT_DIR_alt p) 1 \<noteq> Captured"
  shows "target e = None \<and> target_failed e"
  unfolding compare_page_alt_make_entry [OF assms(1)] using assms(2,3)
  by (simp add: make_entry_def capture_side_alt_def take_fullpage_screenshot_alt_def
      split: attempt.split)

lemma run_test_block:
  assumes "run_test bad_url url_path w mk driver = Inr r"
    and "p \<in> set (all_paths (url_dict url_path (source_urls w)) (url_dict url_path (target_urls w)))"
  shows "\<exists>e \<in> set (report_entries r). path e = p
      \<and> compare_page mk driver (url_dict url_path (source_urls w))
            (url_dict url_path (target_urls w)) p = Inr e
      \<and> (\<exists>a b. index_html r
            = a @ newline @ ''<div class='page'><h2>'' @ p @ ''</h2>'' @ newline @ checkbox_line
                @ newline @ source_html e @ newline @ target_html e @ newline @ ''</div>''
                @ newline @ b)"
proof -
  let ?sm = "url_dict url_path (source_urls w)" and ?tm = "url_dict url_path (target_urls w)"
  from assms(1)
  have es: "compare_pages (compare_page mk driver ?sm ?tm) (all_paths ?sm ?tm) = Inr (report_entries r)"
    and html: "index_html r = join_lines (html_lines html_head (report_entries r))"
    by (auto dest: run_test_entries simp: generate_html_report_def)
  from baseline_loop(3) [OF es assms(2)]
  obtain e where e: "e \<in> set (report_entries r)" "path e = p"
      "compare_page mk driver ?sm ?tm p = Inr e"
    by blast
  have "html_head \<noteq> []" by (simp add: html_head_def)
  from report_text_block [OF e(1) this] show ?thesis
    unfolding html using e by blast
qed

lemma run_test_alt_block:
  assumes "run_test_alt bad_url url_path w mk driver = Inr r"
    and "p \<in> set (all_paths (url_dict url_path (source_urls_alt w))
                             (url_dict url_path (target_urls_alt w)))"
  shows "\<exists>e \<in> set (report_entries r). path e = p
      \<and> compare_page_alt mk driver (url_dict url_path (source_urls_alt w))
            (url_dict url_path (target_urls_alt w)) p = Inr e
      \<and> (\<exists>a b. index_html r
            = a @ newline @ ''<div class='page'><h2>'' @ p @ ''</h2>'' @ newline @ checkbox_line
                @ newline @ source_html e @ newline @ target_html e @ newline @ ''</div>''
                @ newline @ b)"
proof -
  let ?sm = "url_dict url_path (source_urls_alt w)"
  let ?tm = "url_dict url_path (target_urls_alt w)"
  from assms(1)
  have es: "compare_pages (compare_page_alt mk driver ?sm ?tm) (all_paths ?sm ?tm)
      = Inr (report_entries r)"
    and html: "index_html r = join_lines (html_lines html_head_alt (report_entries r))"
    by (auto dest: run_test_alt_entries simp: generate_html_report_alt_def)
  from variant_loop(3) [OF es assms(2)]
  obtain e where e: "e \<in> set (report_entries r)" "path e = p"
      "compare_page_alt mk driver ?sm ?tm p = Inr e"
    by blast
  have "html_head_alt \<noteq> []" by (simp add: html_head_alt_def)
  from report_text_block [OF e(1) this] show ?thesis
    unfolding html using e by blast
qed

text \<open>
  C3, as stated, fails: it promises an entry and a report for every failed capture, but a
  run need not reach the report. Here the source sitemap lists \<open>/about\<close> and
  \<open>/logs.txt\<close>. Both attempts to capture the source's \<open>/about\<close> page fail, and then the
  directory for \<open>/logs.txt\<close> cannot be made, because the log file has that name: the
  exception ends \<open>run_test\<close>, in both scripts, and neither entries nor
  \<open>index.html\<close> are produced.
\<close>

theorem failed_capture_without_report:
  "''/about'' \<in> set (all_paths (url_dict urlparse_path (source_urls logs_web))
                                (url_dict urlparse_path (target_urls logs_web)))
   \<and> map_of (url_dict urlparse_path (source_urls logs_web)) ''/about''
       = Some ''https://bumperdocbrooklyn.com/about''
   \<and> example_driver ''https://bumperdocbrooklyn.com/about'' (source_img REPORT_DIR ''/about'') 1
       = AutomationError
   \<and> example_driver ''https://bumperdocbrooklyn.com/about'' (source_img REPORT_DIR ''/about'') 2
       = AutomationError
   \<and> run_test urlparse_raises urlparse_path logs_web log_file_disk example_driver = Inl OSError
   \<and> run_test_alt urlparse_raises urlparse_path logs_web log_file_disk example_driver
       = Inl OSError"
  by (simp add: run_test_def run_test_alt_def example_defs example_driver_def run_defs
      take_fullpage_screenshot_two_attempts)

text \<open>
  C3, amended to the runs that reach the report. Let \<open>p\<close> be a reconciled path with a
  source URL of which every attempt (the \<open>RETRY_COUNT\<close> attempts of the baseline, the
  one attempt of the variant) fails. Then the report has an entry for \<open>p\<close> with no
  source image and \<open>source_failed\<close> set, and the text of \<open>index.html\<close> holds the block
  of \<open>p\<close>: the heading of \<open>p\<close>, the line of the check boxes, then the line
  \<open>Source page not available\<close> where the source image would be, then the line of the
  target and the closing line. The same holds of the target side, with the line
  \<open>Target page not available\<close> after the line of the source.
\<close>

theorem failed_capture_reported:
  "(run_test bad_url url_path w makedirs_raises driver = Inr r
      \<and> p \<in> set (all_paths (url_dict url_path (source_urls w)) (url_dict url_path (target_urls w)))
      \<and> map_of (url_dict url_path (source_urls w)) p = Some u
      \<and> (\<forall>a \<in> {1 .. RETRY_COUNT}. driver u (source_img REPORT_DIR p) a = AutomationError)
    \<longrightarrow> (\<exists>e \<in> set (report_entries r). path e = p \<and> source e = None \<and> source_failed e
            \<and> (\<exists>before after. index_html r
                  = before @ newline @ ''<div class='page'><h2>'' @ p @ ''</h2>'' @ newline
                      @ checkbox_line @ newline @ source_missing @ newline @ target_html e
                      @ newline @ ''</div>'' @ newline @ after)))
   \<and> (run_test bad_url url_path w makedirs_raises driver = Inr r
      \<and> p \<in> set (all_paths (url_dict url_path (source_urls w)) (url_dict url_path (target_urls w)))
      \<and> map_of (url_dict url_path (target_urls w)) p = Some u
      \<and> (\<forall>a \<in> {1 .. RETRY_COUNT}. driver u (target_img REPORT_DIR p) a = AutomationError)
    \<longrightarrow> (\<exists>e \<in> set (report_entries r). path e = p \<and> target e = None \<and> target_failed e
            \<and> (\<exists>before after. index_html r
                  = before @ newline @ ''<div class='page'><h2>'' @ p @ ''</h2>'' @ newline
                      @ checkbox_line @ newline @ source_html e @ newline @ target_missing
                      @ newline @ ''</div>'' @ newline @ after)))
   \<and> (run_test_alt bad_url url_path w makedirs_raises driver = Inr r'
      \<and> p \<in> set (all_paths (url_dict url_path (source_urls_alt w))
                             (url_dict url_path (target_urls_alt w)))
      \<and> map_of (url_dict url_path (source_urls_alt w)) p = Some u
      \<and> driver u (source_img REPORT_DIR_alt p) 1 \<noteq> Captured
    \<longrightarrow> (\<exists>e \<in> set (report_entries r'). path e = p \<and> source e = None \<and> source_failed e
            \<and> (\<exists>before after. index_html r'
                  = before @ newline @ ''<div class='page'><h2>'' @ p @ ''</h2>'' @ newline
                      @ checkbox_line @ newline @ source_missing @ newline @ target_html e
                      @ newline @ ''</div>'' @ newline @ after)))
   \<and> (run_test_alt bad_url url_path w makedirs_raises driver = Inr r'
      \<and> p \<in> set (all_paths (url_dict url_path (source_urls_alt w))
                             (url_dict url_path (target_urls_alt w)))
      \<and> map_of (url_dict url_path (target_urls_alt w)) p = Some u
      \<and> driver u (target_img REPORT_DIR_alt p) 1 \<noteq> Captured
    \<longrightarrow> (\<exists>e \<in> set (report_entries r'). path e = p \<and> target e = None \<and> target_failed e
            \<and> (\<exists>before after. index_html r'
                  = before @ newline @ ''<div class='page'><h2>'' @ p @ ''</h2>'' @ newline
                      @ checkbox_line @ newline @ source_html e @ newline @ target_missing
                      @ newline @ ''</div>'' @ newline @ after)))"
proof (intro conjI impI)
  let ?sm = "url_dict url_path (source_urls w)" and ?tm = "url_dict url_path (target_urls w)"
  assume h: "run_test bad_url url_path w makedirs_raises driver = Inr r
      \<and> p \<in> set (all_paths ?sm ?tm) \<and> map_of ?sm p = Some u
      \<and> (\<forall>a \<in> {1 .. RETRY_COUNT}. driver u (source_img REPORT_DIR p) a = AutomationError)"
  then obtain e where e: "e \<in> set (report_entries r)" "path e = p"
      "compare_page makedirs_raises driver ?sm ?tm p = Inr e"
    and t: "\<exists>before after. index_html r
        = before @ newline @ ''<div class='page'><h2>'' @ p @ ''</h2>'' @ newline
            @ checkbox_line @ newline @ source_html e @ newline @ target_html e
            @ newline @ ''</div>'' @ newline @ after"
    using run_test_block [of bad_url url_path w makedirs_raises driver r p] by blast
  from e(3) h have f: "source e = None \<and> source_failed e"
    by (intro compare_page_source_fails [of makedirs_raises driver ?sm ?tm p e u]) simp_all
  then have "source_html e = source_missing" by (simp add: source_html_None)
  with t e f show "\<exists>e \<in> set (report_entries r). path e = p \<and> source e = None \<and> source_failed e
      \<and> (\<exists>before after. index_html r
            = before @ newline @ ''<div class='page'><h2>'' @ p @ ''</h2>'' @ newline
                @ checkbox_line @ newline @ source_missing @ newline @ target_html e
                @ newline @ ''</div>'' @ newline @ after)"
    by auto
next
  let ?sm = "url_dict url_path (source_urls w)" and ?tm = "url_dict url_path (target_urls w)"
  assume h: "run_test bad_url url_path w makedirs_raises driver = Inr r
      \<and> p \<in> set (all_paths ?sm ?tm) \<and> map_of ?tm p = Some u
      \<and> (\<forall>a \<in> {1 .. RETRY_COUNT}. driver u (target_img REPORT_DIR p) a = AutomationError)"
  then obtain e where e: "e \<in> set (report_entries r)" "path e = p"
      "compare_page makedirs_raises driver ?sm ?tm p = Inr e"
    and t: "\<exists>before after. index_html r
        = before @ newline @ ''<div class='page'><h2>'' @ p @ ''</h2>'' @ newline
            @ checkbox_line @ newline @ source_html e @ newline @ target_html e
            @ newline @ ''</div>'' @ newline @ after"
    using run_test_block [of bad_url url_path w makedirs_raises driver r p] by blast
  from e(3) h have f: "target e = None \<and> target_failed e"
    by (intro compare_page_target_fails [of makedirs_raises driver ?sm ?tm p e u]) simp_all
  then have "target_html e = target_missing" by (simp add: target_html_None)
  with t e f show "\<exists>e \<in> set (report_entries r). path e = p \<and> target e = None \<and> target_failed e
      \<and> (\<exists>before after. index_html r
            = before @ newline @ ''<div class='page'><h2>'' @ p @ ''</h2>'' @ newline
                @ checkbox_line @ newline @ source_html e @ newline @ target_missing
                @ newline @ ''</div>'' @ newline @ after)"
    by auto
next
  let ?sm = "url_dict url_path (source_urls_alt w)"
  let ?tm = "url_dict url_path (target_urls_alt w)"
  assume h: "run_test_alt bad_url url_path w makedirs_raises driver = Inr r'
      \<and> p \<in> set (all_paths ?sm ?tm) \<and> map_of ?sm p = Some u
      \<and> driver u (source_img REPORT_DIR_alt p) 1 \<noteq> Captured"
  then obtain e where e: "e \<in> set (report_entries r')" "path e = p"
      "compare_page_alt makedirs_raises driver ?sm ?tm p = Inr e"
    and t: "\<exists>before after. index_html r'
        = before @ newline @ ''<div class='page'><h2>'' @ p @ ''</h2>'' @ newline
            @ checkbox_line @ newline @ source_html e @ newline @ target_html e
            @ newline @ ''</div>'' @ newline @ after"
    using run_test_alt_block [of bad_url url_path w makedirs_raises driver r' p] by blast
  from e(3) h have f: "source e = None \<and> source_failed e"
    by (intro compare_page_alt_source_fails [of makedirs_raises driver ?sm ?tm p e u]) simp_all
  then have "source_html e = source_missing" by (simp add: source_html_None)
  with t e f show "\<exists>e \<in> set (report_entries r'). path e = p \<and> source e = None \<and> source_failed e
      \<and> (\<exists>before after. index_html r'
            = before @ newline @ ''<div class='page'><h2>'' @ p @ ''</h2>'' @ newline
                @ checkbox_line @ newline @ source_missing @ newline @ target_html e
                @ newline @ ''</div>'' @ newline @ after)"
    by auto
next
  let ?sm = "url_dict url_path (source_urls_alt w)"
  let ?tm = "url_dict url_path (target_urls_alt w)"
  assume h: "run_test_alt bad_url url_path w makedirs_raises driver = Inr r'
      \<and> p \<in> set (all_paths ?sm ?tm) \<and> map_of ?tm p = Some u
      \<and> driver u (target_img REPORT_DIR_alt p) 1 \<noteq> Captured"
  then obtain e where e: "e \<in> set (report_entries r')" "path e = p"
      "compare_page_alt makedirs_raises driver ?sm ?tm p = Inr e"
    and t: "\<exists>before after. index_html r'
        = before @ newline @ ''<div class='page'><h2>'' @ p @ ''</h2>'' @ newline
            @ checkbox_line @ newline @ source_html e @ newline @ target_html e
            @ newline @ ''</div>'' @ newline @ after"
    using run_test_alt_block [of bad_url url_path w makedirs_raises driver r' p] by blast
  from e(3) h have f: "target e = None \<and> target_failed e"
    by (intro compare_page_alt_target_fails [of makedirs_raises driver ?sm ?tm p e u]) simp_all
  then have "target_html e = target_missing" by (simp add: target_html_None)
  with t e f show "\<exists>e \<in> set (report_entries r'). path e = p \<and> target e = None \<and> target_failed e
      \<and> (\<exists>before after. index_html r'
            = before @ newline @ ''<div class='page'><h2>'' @ p @ ''</h2>'' @ newline
                @ checkbox_line @ newline @ source_html e @ newline @ target_missing
                @ newline @ ''</div>'' @ newline @ after)"
    by auto
qed

text \<open>
  The amended C3 at the worked example: the source capture of \<open>/about\<close> and the target
  capture of \<open>/contact\<close> fail at every attempt, and both scripts reach the report.
\<close>

theorem failed_capture_reported_witness:
  "example_driver ''https://bumperdocbrooklyn.com/about'' (source_img REPORT_DIR ''/about'') 1
     = AutomationError
   \<and> example_driver ''https://bumperdocbrooklyn.com/about'' (source_img REPORT_DIR ''/about'') 2
     = AutomationError
   \<and> (\<exists>e \<in> set example_entries. path e = ''/about'' \<and> source e = None \<and> source_failed e
          \<and> (\<exists>before after. generate_html_report example_entries
                = before @ newline @ ''<div class='page'><h2>'' @ ''/about'' @ ''</h2>'' @ newline
                    @ checkbox_line @ newline @ source_missing @ newline @ target_html e
                    @ newline @ ''</div>'' @ newline @ after))
   \<and> example_driver ''https://staging2.bumperdocbrooklyn.com/contact''
         (target_img REPORT_DIR ''/contact'') 1 = AutomationError
   \<and> example_driver ''https://staging2.bumperdocbrooklyn.com/contact''
         (target_img REPORT_DIR ''/contact'') 2 = AutomationError
   \<and> (\<exists>e \<in> set example_entries. path e = ''/contact'' \<and> target e = None \<and> target_failed e
          \<and> (\<exists>before after. generate_html_report example_entries
                = before @ newline @ ''<div class='page'><h2>'' @ ''/contact'' @ ''</h2>''
                    @ newline @ checkbox_line @ newline @ source_html e @ newline
                    @ target_missing @ newline @ ''</div>'' @ newline @ after))
   \<and> (\<exists>e \<in> set example_entries. path e = ''/about'' \<and> source e = None \<and> source_failed e
          \<and> (\<exists>before after. generate_html_report_alt example_entries
                = before @ newline @ ''<div class='page'><h2>'' @ ''/about'' @ ''</h2>'' @ newline
                    @ checkbox_line @ newline @ source_missing @ newline @ target_html e
                    @ newline @ ''</div>'' @ newline @ after))
   \<and> (\<exists>e \<in> set example_entries. path e = ''/contact'' \<and> target e = None \<and> target_failed e
          \<and> (\<exists>before after. generate_html_report_alt example_entries
                = before @ newline @ ''<div class='page'><h2>'' @ ''/contact'' @ ''</h2>''
                    @ newline @ checkbox_line @ newline @ source_html e @ newline
                    @ target_missing @ newline @ ''</div>'' @ newline @ after))"
proof -
  let ?r = "\<lparr> report_entries = example_entries,
              index_html = generate_html_report example_entries \<rparr>"
  let ?r' = "\<lparr> report_entries = example_entries,
               index_html = generate_html_report_alt example_entries \<rparr>"
  let ?su = "''https://bumperdocbrooklyn.com/about''"
  let ?tu = "''https://staging2.bumperdocbrooklyn.com/contact''"
  have run: "run_test urlparse_raises urlparse_path example_web log_file_disk example_driver
      = Inr ?r"
    by (rule example_run)
  have run': "run_test_alt urlparse_raises urlparse_path example_web log_file_disk example_driver
      = Inr ?r'"
    by (rule example_run_alt)
  have sf: "\<forall>a \<in> {1 .. RETRY_COUNT}.
      example_driver ?su (source_img REPORT_DIR ''/about'') a = AutomationError"
    by (simp add: example_driver_def)
  have tf: "\<forall>a \<in> {1 .. RETRY_COUNT}.
      example_driver ?tu (target_img REPORT_DIR ''/contact'') a = AutomationError"
    by (simp add: example_driver_def)
  have sfa: "example_driver ?su (source_img REPORT_DIR_alt ''/about'') 1 \<noteq> Captured"
    by (simp add: example_driver_def)
  have tfa: "example_driver ?tu (target_img REPORT_DIR_alt ''/contact'') 1 \<noteq> Captured"
    by (simp add: example_driver_def)
  note about = failed_capture_reported [of urlparse_raises urlparse_path example_web
      log_file_disk example_driver ?r "''/about''" ?su ?r']
  note contact = failed_capture_reported [of urlparse_raises urlparse_path example_web
      log_file_disk example_driver ?r "''/contact''" ?tu ?r']
  from about run run' sf sfa
  have a: "(\<exists>e \<in> set example_entries. path e = ''/about'' \<and> source e = None \<and> source_failed e
          \<and> (\<exists>before after. generate_html_report example_entries
                = before @ newline @ ''<div class='page'><h2>'' @ ''/about'' @ ''</h2>'' @ newline
                    @ checkbox_line @ newline @ source_missing @ newline @ target_html e
                    @ newline @ ''</div>'' @ newline @ after))
     \<and> (\<exists>e \<in> set example_entries. path e = ''/about'' \<and> source e = None \<and> source_failed e
          \<and> (\<exists>before after. generate_html_report_alt example_entries
                = before @ newline @ ''<div class='page'><h2>'' @ ''/about'' @ ''</h2>'' @ newline
                    @ checkbox_line @ newline @ source_missing @ newline @ target_html e
                    @ newline @ ''</div>'' @ newline @ after))"
    by (simp only: example_all_paths example_all_paths_alt example_source_about
        list.set insert_iff simp_thms run_result.simps)
  from contact run run' tf tfa
  have c: "(\<exists>e \<in> set example_entries. path e = ''/contact'' \<and> target e = None \<and> target_failed e
          \<and> (\<exists>before after. generate_html_report example_entries
                = before @ newline @ ''<div class='page'><h2>'' @ ''/contact'' @ ''</h2>''
                    @ newline @ checkbox_line @ newline @ source_html e @ newline
                    @ target_missing @ newline @ ''</div>'' @ newline @ after))
     \<and> (\<exists>e \<in> set example_entries. path e = ''/contact'' \<and> target e = None \<and> target_failed e
          \<and> (\<exists>before after. generate_html_report_alt example_entries
                = before @ newline @ ''<div class='page'><h2>'' @ ''/contact'' @ ''</h2>''
                    @ newline @ checkbox_line @ newline @ source_html e @ newline
                    @ target_missing @ newline @ ''</div>'' @ newline @ after))"
    by (simp only: example_all_paths example_all_paths_alt example_target_contact
        list.set insert_iff simp_thms run_result.simps)
  have "example_driver ?su img n = AutomationError"
    and "example_driver ?tu img n = AutomationError" for img n
    by (simp_all add: example_driver_def)
  with a c show ?thesis by blast
qed

text \<open>
  C4, as stated, fails for the variant script, which has no fallback: when the target
  sitemap cannot be fetched, its target mapping stays empty and the reconciled paths are
  those of the source.
\<close>

theorem no_fallback_in_variant:
  "get_sitemap_urls_alt target_down_web TARGET_SITEMAP_URL = []
   \<and> target_urls_alt target_down_web = []
   \<and> all_paths (url_dict urlparse_path (source_urls_alt target_down_web))
                (url_dict urlparse_path (target_urls_alt target_down_web)) = [''/about'']
   \<and> run_test_alt urlparse_raises urlparse_path target_down_web log_file_disk example_driver
       = Inr \<lparr> report_entries = target_down_entries_alt,
               index_html = generate_html_report_alt target_down_entries_alt \<rparr>
   \<and> ''/'' \<notin> set (map path target_down_entries_alt)"
proof -
  have "get_sitemap_urls_alt target_down_web TARGET_SITEMAP_URL = []"
    using target_down_urls(4) by (simp add: target_urls_alt_def)
  moreover have "run_test_alt urlparse_raises urlparse_path target_down_web log_file_disk
        example_driver
      = Inr \<lparr> report_entries = target_down_entries_alt,
              index_html = generate_html_report_alt target_down_entries_alt \<rparr>"
    by (simp add: run_test_alt_def example_defs example_driver_def target_down_entries_alt_def
        run_defs)
  ultimately show ?thesis
    by (simp add: example_defs target_down_entries_alt_def)
qed

text \<open>
  C4, amended to the baseline script. When the fetch of the target sitemap returns no
  URL, the target URLs become the single URL of the target site's home page; its path is
  \<open>/\<close>, so the target mapping has the one key \<open>/\<close> and the reconciled paths, and
  the report of a run that reaches it, contain \<open>/\<close>. The variant has no fallback: there
  the target URLs and the target mapping stay empty, and the reconciled paths are the
  paths of the source.
\<close>

theorem target_fallback:
  assumes "get_sitemap_urls w TARGET_SITEMAP_URL = []"
    and "url_path (TARGET_SITE @ ''/'') = ''/''"
  shows "target_urls w = [TARGET_SITE @ ''/'']
    \<and> url_dict url_path (target_urls w) = [(''/'', TARGET_SITE @ ''/'')]
    \<and> ''/'' \<in> set (all_paths (url_dict url_path (source_urls w))
                               (url_dict url_path (target_urls w)))
    \<and> (run_test bad_url url_path w makedirs_raises driver = Inr r
          \<longrightarrow> ''/'' \<in> set (map path (report_entries r)))
    \<and> target_urls_alt w = []
    \<and> url_dict url_path (target_urls_alt w) = []
    \<and> set (all_paths (url_dict url_path (source_urls_alt w))
                      (url_dict url_path (target_urls_alt w)))
        = url_path ` set (source_urls_alt w)"
proof -
  from assms(1) have t: "target_urls w = [TARGET_SITE @ ''/'']"
    by (simp add: target_urls_def)
  with assms(2) have d: "url_dict url_path (target_urls w) = [(''/'', TARGET_SITE @ ''/'')]"
    by (simp add: url_dict_def)
  then have p: "''/'' \<in> set (all_paths (url_dict url_path (source_urls w))
                               (url_dict url_path (target_urls w)))"
    by (simp add: set_all_paths)
  then have rn: "run_test bad_url url_path w makedirs_raises driver = Inr r
      \<longrightarrow> ''/'' \<in> set (map path (report_entries r))"
    using run_test_paths [of bad_url url_path w makedirs_raises driver r] by simp
  from assms(1) have ta: "target_urls_alt w = []"
    by (simp add: target_urls_alt_def get_sitemap_urls_alt_eq)
  then have da: "url_dict url_path (target_urls_alt w) = []"
    by (simp add: url_dict_def)
  then have pa: "set (all_paths (url_dict url_path (source_urls_alt w))
                      (url_dict url_path (target_urls_alt w)))
        = url_path ` set (source_urls_alt w)"
    by (simp add: set_all_paths keys_url_dict)
  from t d p rn ta da pa show ?thesis by blast
qed

text \<open>
  The amended C4 at a run in which the target sitemap cannot be fetched.
\<close>

theorem target_fallback_witness:
  "get_sitemap_urls target_down_web TARGET_SITEMAP_URL = []
   \<and> urlparse_path (TARGET_SITE @ ''/'') = ''/''
   \<and> target_urls target_down_web = [''https://staging2.bumperdocbrooklyn.com/'']
   \<and> all_paths (url_dict urlparse_path (source_urls target_down_web))
                (url_dict urlparse_path (target_urls target_down_web)) = [''/'', ''/about'']
   \<and> (\<exists>r. run_test urlparse_raises urlparse_path target_down_web log_file_disk example_driver
              = Inr r
          \<and> ''/'' \<in> set (map path (report_entries r)))
   \<and> target_urls_alt target_down_web = []"
proof -
  have a: "get_sitemap_urls target_down_web TARGET_SITEMAP_URL = []"
    using target_down_urls(4) by (simp add: target_urls_alt_def get_sitemap_urls_alt_eq)
  have b: "urlparse_path (TARGET_SITE @ ''/'') = ''/''"
    by (simp add: TARGET_SITE_def example_url_paths)
  have c: "all_paths (url_dict urlparse_path (source_urls target_down_web))
                (url_dict urlparse_path (target_urls target_down_web)) = [''/'', ''/about'']"
    by (simp add: example_defs)
  have "\<exists>r. run_test urlparse_raises urlparse_path target_down_web log_file_disk example_driver
      = Inr r"
    by (simp add: run_test_def example_defs example_driver_def run_defs
        take_fullpage_screenshot_two_attempts)
  then obtain r
    where r: "run_test urlparse_raises urlparse_path target_down_web log_file_disk example_driver
      = Inr r"
    by blast
  from target_fallback [of target_down_web urlparse_path urlparse_raises log_file_disk
      example_driver r] a b r c
  show ?thesis by (auto simp: TARGET_SITE_def)
qed

end
